theory Spec2Isabelle
  imports Complex_Main "HOL-Library.Word" "HOL-Library.Sublist" "HOL-Library.Log_Nat"
begin

section \<open>Python values and errors\<close>

text \<open>Exceptions are values.\<close>

datatype py_error =
    ZeroDivisionError
  | OverflowError
  | ValueError
  | OSError
  | RuntimeError string

type_synonym bytes = "8 word list"

text \<open>\<open>int(x)\<close> on a float truncates towards zero.\<close>

definition py_int :: "rat \<Rightarrow> int" where
  "py_int x = (if 0 \<le> x then \<lfloor>x\<rfloor> else \<lceil>x\<rceil>)"

text \<open>\<open>v or d\<close> for an optional int \<open>v\<close>: \<open>None\<close> and \<open>0\<close> are falsy.\<close>

definition or_default :: "int option \<Rightarrow> int \<Rightarrow> int" where
  "or_default v d = (case v of None \<Rightarrow> d | Some x \<Rightarrow> if x = 0 then d else x)"

text \<open>\<open>sub in s\<close> on strings: \<open>sub\<close> occurs in \<open>s\<close> as a contiguous run.\<close>

fun contains :: "'a list \<Rightarrow> 'a list \<Rightarrow> bool" where
  "contains sub [] = (sub = [])"
| "contains sub (c # cs) = (prefix sub (c # cs) \<or> contains sub cs)"

section \<open>Binary64 floats\<close>

text \<open>
  A finite Python float is modelled by the rational number it denotes.  An operation that
  produces a float rounds the exact result to the nearest binary64 value, ties to even:
  53 significant bits in the normal range, multiples of \<open>2^-1074\<close> below it.  A
  rounded result whose exponent exceeds 1023, that is, of magnitude \<open>2^1024\<close> or more,
  is out of range.
\<close>

definition pow2 :: "int \<Rightarrow> rat" where
  "pow2 k = (if 0 \<le> k then 2 ^ nat k else 1 / 2 ^ nat (- k))"

text \<open>The exponent \<open>e\<close> of a non-zero \<open>x\<close>: \<open>2^e \<le> |x| < 2^(e+1)\<close>.\<close>

definition float_exponent :: "rat \<Rightarrow> int" where
  "float_exponent x =
     (let (p, q) = quotient_of \<bar>x\<bar>; k = bitlen p - bitlen q
      in if pow2 k \<le> \<bar>x\<bar> then k else k - 1)"

definition round_half_even :: "rat \<Rightarrow> int" where
  "round_half_even t =
     (let f = \<lfloor>t\<rfloor>; r = t - of_int f
      in if r < 1 / 2 then f else if 1 / 2 < r then f + 1 else if even f then f else f + 1)"

definition float_round :: "rat \<Rightarrow> rat" where
  "float_round x =
     (if x = 0 then 0
      else (let q = pow2 (max (float_exponent x - 52) (- 1074))
            in of_int (round_half_even (x / q)) * q))"

definition float_overflow :: "rat \<Rightarrow> bool" where
  "float_overflow x \<longleftrightarrow> x \<noteq> 0 \<and> 1024 \<le> float_exponent x"

text \<open>The rationals that are finite floats.\<close>

definition is_float :: "rat \<Rightarrow> bool" where
  "is_float x \<longleftrightarrow> float_round x = x \<and> \<not> float_overflow x"

text \<open>\<open>float(i)\<close> for an int \<open>i\<close>, as done implicitly when an int meets a float in
  \<open>/\<close> or \<open>*\<close>: the nearest float, OverflowError when that is out of range.\<close>

definition float_of_int :: "int \<Rightarrow> py_error + rat" where
  "float_of_int i =
     (let y = float_round (of_int i)
      in if float_overflow y then Inl OverflowError else Inr y)"

text \<open>\<open>x / i\<close> for a float \<open>x\<close> and an int \<open>i\<close>.  The divisor has magnitude at
  least 1, so the quotient of a finite float is finite.\<close>

definition float_truediv :: "rat \<Rightarrow> int \<Rightarrow> py_error + rat" where
  "float_truediv x i =
     (case float_of_int i of
        Inl e \<Rightarrow> Inl e
      | Inr y \<Rightarrow> if y = 0 then Inl ZeroDivisionError else Inr (float_round (x / y)))"

text \<open>\<open>a / b\<close> on two Python ints: the correctly rounded quotient, raising on a zero
  divisor and on a quotient that is out of range.\<close>

definition py_truediv :: "int \<Rightarrow> int \<Rightarrow> py_error + rat" where
  "py_truediv a b =
     (if b = 0 then Inl ZeroDivisionError
      else (let r = float_round (of_int a / of_int b)
            in if float_overflow r then Inl OverflowError else Inr r))"

section \<open>collections.deque with maxlen, and get_avg (vtop.py)\<close>

record 'a deque =
  items :: "'a list"
  maxlen :: nat

text \<open>\<open>deque([], maxlen=m)\<close> raises ValueError for a negative \<open>m\<close>.\<close>

definition deque_new :: "int \<Rightarrow> py_error + 'a deque" where
  "deque_new m = (if m < 0 then Inl ValueError else Inr \<lparr>items = [], maxlen = nat m\<rparr>)"

text \<open>\<open>d.append(x)\<close>: the item is added on the right; a deque that then holds more
  than \<open>maxlen\<close> items drops its leftmost one.\<close>

definition deque_append :: "'a deque \<Rightarrow> 'a \<Rightarrow> 'a deque" where
  "deque_append d x =
     (let ys = items d @ [x]
      in d\<lparr>items := (if length ys > maxlen d then tl ys else ys)\<rparr>)"

text \<open>\<open>def get_avg(inlist): return sum(inlist) / len(inlist) if inlist else 0\<close>, as
  the arithmetic mean of the items: the sum and its quotient are taken exactly.\<close>

definition get_avg :: "rat list \<Rightarrow> rat" where
  "get_avg inlist = (if inlist \<noteq> [] then sum_list inlist / of_nat (length inlist) else 0)"

text \<open>\<open>deque([], maxlen=int(args.avg / args.interval))\<close>\<close>

definition new_power_list :: "int \<Rightarrow> int \<Rightarrow> py_error + rat deque" where
  "new_power_list avg_arg interval_arg =
     (case py_truediv avg_arg interval_arg of
        Inl e \<Rightarrow> Inl e
      | Inr q \<Rightarrow> deque_new (py_int q))"


section \<open>Normalized samples (the tuple returned by get_metrics)\<close>

text \<open>
  The dictionaries returned by the providers, with the keys the session loop reads.
  \<open>P_Cluster_i_active ! i\<close> stands for the key \<open>P-Cluster{i}_active\<close>.  The fourth,
  reserved slot of the tuple is always \<open>None\<close> and is left out.
\<close>

record cpu_metrics =
  e_core :: "nat list"
  p_core :: "nat list"
  cpu_W :: rat
  gpu_W :: rat
  package_W :: rat
  ane_W :: rat
  P_Cluster_i_active :: "int list"
  P_Cluster_i_freq_Mhz :: "int list"
  P_Cluster_active :: int
  P_Cluster_freq_Mhz :: int

record gpu_metrics =
  freq_MHz :: int
  active :: int

record sample =
  cpu_metrics_dict :: cpu_metrics
  gpu_metrics_dict :: gpu_metrics
  thermal_pressure :: string
  timestamp :: rat

section \<open>AppleSiliconProvider (providers/apple_silicon.py)\<close>

text \<open>\<open>data.split(b'\x00')\<close>: the runs between separators; always at least one run.\<close>

fun split_bytes :: "'a \<Rightarrow> 'a list \<Rightarrow> 'a list list" where
  "split_bytes sep [] = [[]]"
| "split_bytes sep (b # bs) =
     (if b = sep then [] # split_bytes sep bs
      else (case split_bytes sep bs of
              r # rs \<Rightarrow> (b # r) # rs
            | [] \<Rightarrow> [[b]]))"

text \<open>
  \<open>plistlib.loads\<close> belongs to the standard library and the \<open>parse_*\<close> functions to a
  module that is not part of these sources, so they are parameters.  Each may raise an
  exception of type \<open>'e\<close> (a subclass of \<open>Exception\<close>); \<open>timestamp_of\<close> is the
  lookup \<open>powermetrics_parse["timestamp"]\<close>.
\<close>

record ('e, 'p) plist_api =
  loads :: "bytes \<Rightarrow> 'e + 'p"
  parse_thermal_pressure :: "'p \<Rightarrow> 'e + string"
  parse_cpu_metrics :: "'p \<Rightarrow> 'e + cpu_metrics"
  parse_gpu_metrics :: "'p \<Rightarrow> 'e + gpu_metrics"
  timestamp_of :: "'p \<Rightarrow> 'e + rat"

text \<open>The statements of one \<open>try\<close> body of \<open>get_metrics\<close>, from \<open>plistlib.loads\<close> to
  the returned tuple; the first exception ends it.\<close>

definition decode_entry :: "('e, 'p) plist_api \<Rightarrow> bytes \<Rightarrow> 'e + sample" where
  "decode_entry api blob =
     (case loads api blob of Inl e \<Rightarrow> Inl e | Inr powermetrics_parse \<Rightarrow>
      case parse_thermal_pressure api powermetrics_parse of Inl e \<Rightarrow> Inl e | Inr tp \<Rightarrow>
      case parse_cpu_metrics api powermetrics_parse of Inl e \<Rightarrow> Inl e | Inr cm \<Rightarrow>
      case parse_gpu_metrics api powermetrics_parse of Inl e \<Rightarrow> Inl e | Inr gm \<Rightarrow>
      case timestamp_of api powermetrics_parse of Inl e \<Rightarrow> Inl e | Inr ts \<Rightarrow>
        Inr \<lparr>cpu_metrics_dict = cm, gpu_metrics_dict = gm,
             thermal_pressure = tp, timestamp = ts\<rparr>)"

text \<open>
  \<open>get_metrics\<close>.  The argument \<open>fp\<close> is the outcome of opening and reading the
  session file (\<open>Inl\<close>: it raised, and \<open>data\<close> is still \<open>None\<close> in the handler).
  The result pairs the blobs handed to \<open>plistlib.loads\<close>, in call order, with the value
  returned to the caller (\<open>None\<close>: no sample available).
\<close>

definition AppleSiliconProvider_get_metrics ::
  "('e, 'p) plist_api \<Rightarrow> 'e + bytes \<Rightarrow> bytes list \<times> sample option" where
  "AppleSiliconProvider_get_metrics api fp =
     (case fp of
        Inl e \<Rightarrow> ([], None)
      | Inr raw \<Rightarrow>
          (let data = split_bytes 0 raw in
           case decode_entry api (last data) of
             Inr s \<Rightarrow> ([last data], Some s)
           | Inl e \<Rightarrow>
               if length data > 1 then
                 (let entry = data ! (length data - 2) in
                  if length entry > 0 then
                    (case decode_entry api entry of
                       Inr s \<Rightarrow> ([last data, entry], Some s)
                     | Inl e' \<Rightarrow> ([last data, entry], None))
                  else ([last data], None))
               else ([last data], None)))"

text \<open>The SoC dictionary, with the keys the power computations read.\<close>

record soc_info =
  name :: string
  cpu_max_power :: "int option"
  gpu_max_power :: "int option"

definition set_power_limits :: "soc_info \<Rightarrow> soc_info" where
  "set_power_limits soc =
     (let n = name soc in
      if n = ''Apple M1 Max'' then soc\<lparr>cpu_max_power := Some 30, gpu_max_power := Some 60\<rparr>
      else if n = ''Apple M1 Pro'' then soc\<lparr>cpu_max_power := Some 30, gpu_max_power := Some 30\<rparr>
      else if n = ''Apple M1'' then soc\<lparr>cpu_max_power := Some 20, gpu_max_power := Some 20\<rparr>
      else if n = ''Apple M1 Ultra'' then soc\<lparr>cpu_max_power := Some 60, gpu_max_power := Some 120\<rparr>
      else if n = ''Apple M2'' then soc\<lparr>cpu_max_power := Some 25, gpu_max_power := Some 15\<rparr>
      else if contains ''M3'' n then soc\<lparr>cpu_max_power := Some 30, gpu_max_power := Some 30\<rparr>
      else if contains ''M4'' n then soc\<lparr>cpu_max_power := Some 35, gpu_max_power := Some 35\<rparr>
      else soc\<lparr>cpu_max_power := Some 20, gpu_max_power := Some 20\<rparr>)"

text \<open>The names that \<open>_set_power_limits\<close> compares with \<open>==\<close>.\<close>

definition exact_chip_names :: "string list" where
  "exact_chip_names =
     [''Apple M1 Max'', ''Apple M1 Pro'', ''Apple M1'', ''Apple M1 Ultra'', ''Apple M2'']"

text \<open>\<open>get_soc_info\<close>, for the chip name read from sysctl: both limits start as
  \<open>None\<close> and are then set by \<open>_set_power_limits\<close>.\<close>

definition AppleSiliconProvider_get_soc_info :: "string \<Rightarrow> soc_info" where
  "AppleSiliconProvider_get_soc_info brand_string =
     set_power_limits \<lparr>name = brand_string, cpu_max_power = None, gpu_max_power = None\<rparr>"

section \<open>IntelProvider (providers/intel.py)\<close>

text \<open>\<open>str.lower()\<close>, on ASCII letters.\<close>

definition ascii_lower :: "char \<Rightarrow> char" where
  "ascii_lower c =
     (let n = (of_char c :: nat) in if 65 \<le> n \<and> n \<le> 90 then char_of (n + 32) else c)"

definition lower :: "string \<Rightarrow> string" where
  "lower s = map ascii_lower s"

definition estimate_tdp :: "string \<Rightarrow> int option" where
  "estimate_tdp brand_string =
     (let brand = lower brand_string in
      if contains ''i9'' brand then Some 45
      else if contains ''i7'' brand then Some 35
      else if contains ''i5'' brand then Some 28
      else if contains ''i3'' brand then Some 15
      else if contains ''xeon'' brand then Some 65
      else Some 25)"

definition IntelProvider_get_soc_info :: "string \<Rightarrow> soc_info" where
  "IntelProvider_get_soc_info brand_string =
     \<lparr>name = brand_string, cpu_max_power = estimate_tdp brand_string, gpu_max_power = None\<rparr>"

text \<open>What one call of \<open>get_metrics\<close> reads from the operating system.\<close>

record psutil_reading =
  time_now :: rat
  per_cpu_percent :: "rat list"
  cpu_freq_percpu :: "rat list"
  cpu_freq_all :: "rat option"
  thermal_status :: string

text \<open>
  \<open>get_metrics\<close>.  \<open>cpu_freq_percpu\<close> holds the \<open>current\<close> field of each entry of
  \<open>psutil.cpu_freq(percpu=True)\<close>, \<open>cpu_freq_all\<close> that of \<open>psutil.cpu_freq()\<close>
  (\<open>None\<close> when it returns nothing), \<open>thermal_status\<close> the string built by
  \<open>_get_thermal_status\<close>.  A probe that raised (\<open>Inl\<close>) ends in the handler, which
  returns \<open>None\<close>.
\<close>

definition IntelProvider_get_metrics :: "py_error + psutil_reading \<Rightarrow> sample option" where
  "IntelProvider_get_metrics probe =
     (case probe of
        Inl e \<Rightarrow> None
      | Inr ps \<Rightarrow>
          (let per = per_cpu_percent ps;
               cpu_freq =
                 (if cpu_freq_percpu ps = [] then
                    (case cpu_freq_all ps of
                       Some f \<Rightarrow> replicate (length per) f
                     | None \<Rightarrow> replicate (length per) 0)
                  else if length (cpu_freq_percpu ps) = 1 \<and> length per > 1 then
                    replicate (length per) (hd (cpu_freq_percpu ps))
                  else cpu_freq_percpu ps);
               cm = \<lparr>e_core = [],
                     p_core = [0..<length per],
                     cpu_W = 0, gpu_W = 0, package_W = 0, ane_W = 0,
                     P_Cluster_i_active = map (\<lambda>(percent, freq). py_int percent) (zip per cpu_freq),
                     P_Cluster_i_freq_Mhz = map (\<lambda>(percent, freq). py_int freq) (zip per cpu_freq),
                     P_Cluster_active =
                       (if per \<noteq> [] then py_int (sum_list per / of_nat (length per)) else 0),
                     P_Cluster_freq_Mhz =
                       (if per \<noteq> [] then
                          py_int (of_int (sum_list (map py_int cpu_freq)) / of_nat (length cpu_freq))
                        else 0)\<rparr>;
               gm = \<lparr>freq_MHz = 0, active = 0\<rparr>
           in Some \<lparr>cpu_metrics_dict = cm, gpu_metrics_dict = gm,
                    thermal_pressure = thermal_status ps, timestamp = time_now ps\<rparr>))"

section \<open>Provider factory (providers/factory.py)\<close>

text \<open>
  What the factory reads from the host: \<open>platform.system()\<close>, the stripped output of
  \<open>sysctl -n machdep.cpu.brand_string\<close> (\<open>Inl\<close> when the probe raised) and
  \<open>platform.machine()\<close>.
\<close>

record host =
  system :: string
  brand_probe :: "py_error + string"
  machine :: string

definition detect_architecture :: "host \<Rightarrow> string" where
  "detect_architecture h =
     (if system h \<noteq> ''Darwin'' then ''unknown''
      else (case brand_probe h of
              Inl e \<Rightarrow> ''unknown''
            | Inr result \<Rightarrow>
                if contains ''Apple'' result then ''apple_silicon''
                else if contains ''Intel'' result then ''intel''
                else (let m = lower (machine h) in
                      if m = ''arm64'' \<or> m = ''aarch64'' then ''apple_silicon''
                      else if m \<in> set [''x86_64'', ''i386'', ''i686''] then ''intel''
                      else ''unknown'')))"

datatype provider = AppleSiliconProvider | IntelProvider

definition unsupported_message :: "string \<Rightarrow> host \<Rightarrow> string" where
  "unsupported_message arch h =
     ''Unsupported or unknown architecture: '' @ arch @ [CHR 0x0A] @
     ''vtop currently supports Apple Silicon and Intel CPUs on macOS.'' @ [CHR 0x0A] @
     ''Detected system: '' @ system h @ '' '' @ machine h"

text \<open>\<open>force if force else detect_architecture()\<close>: \<open>None\<close> and the empty string
  are falsy.\<close>

definition get_system_provider :: "string option \<Rightarrow> host \<Rightarrow> py_error + provider" where
  "get_system_provider force h =
     (let arch = (case force of
                    None \<Rightarrow> detect_architecture h
                  | Some f \<Rightarrow> if f \<noteq> [] then f else detect_architecture h)
      in if arch = ''apple_silicon'' then Inr AppleSiliconProvider
         else if arch = ''intel'' then Inr IntelProvider
         else Inl (RuntimeError (unsupported_message arch h)))"

section \<open>The session loop (main in vtop.py)\<close>

text \<open>The command line: \<open>--interval\<close>, \<open>--avg\<close> and \<open>--max_count\<close>, all ints.\<close>

record args =
  interval :: int
  avg :: int
  max_count :: int

text \<open>
  One \<open>ui.display()\<close>: the sample that caused it and the power figures pushed to the
  widgets (titles of the power charts, the appended percentages, the total line).
\<close>

record frame =
  fr_timestamp :: rat
  fr_cpu_w :: rat
  fr_gpu_w :: rat
  fr_pkg_w :: rat
  fr_avg_cpu_w :: rat
  fr_avg_gpu_w :: rat
  fr_cpu_peak_power :: rat
  fr_gpu_peak_power :: rat
  fr_package_peak_power :: rat
  fr_cpu_power_pct :: int
  fr_gpu_power_pct :: int

text \<open>
  The variables of \<open>main\<close> that the loop reads and writes.  \<open>restarts\<close> counts the
  executions of the restart branch (cleanup of the monitor, a new timecode, a new
  monitor); \<open>displayed\<close> is the trace of frames shown so far.
\<close>

record loop_state =
  count :: int
  restarts :: nat
  last_timestamp :: rat
  cpu_peak_power :: rat
  gpu_peak_power :: rat
  package_peak_power :: rat
  avg_cpu_power_list :: "rat deque"
  avg_gpu_power_list :: "rat deque"
  displayed :: "frame list"

text \<open>
  From the peaks set to 0 up to \<open>count = 0\<close>: \<open>t0\<close> is the timestamp of the first
  reading, which only initialises \<open>last_timestamp\<close>.
\<close>

definition start_session :: "args \<Rightarrow> rat \<Rightarrow> py_error + loop_state" where
  "start_session a t0 =
     (case new_power_list (avg a) (interval a) of
        Inl e \<Rightarrow> Inl e
      | Inr cpu_list \<Rightarrow>
          (case new_power_list (avg a) (interval a) of
             Inl e \<Rightarrow> Inl e
           | Inr gpu_list \<Rightarrow>
               Inr \<lparr>count = 0, restarts = 0, last_timestamp = t0,
                    cpu_peak_power = 0, gpu_peak_power = 0, package_peak_power = 0,
                    avg_cpu_power_list = cpu_list, avg_gpu_power_list = gpu_list,
                    displayed = []\<rparr>))"

text \<open>The \<open>if args.max_count > 0\<close> block at the head of each iteration.\<close>

definition restart_policy :: "args \<Rightarrow> loop_state \<Rightarrow> loop_state" where
  "restart_policy a st =
     (if max_count a > 0 then
        (let st1 = (if count st \<ge> max_count a
                    then st\<lparr>count := 0, restarts := Suc (restarts st)\<rparr>
                    else st)
         in st1\<lparr>count := count st1 + 1\<rparr>)
      else st)"

text \<open>
  The expression \<open>min(100, int(w / max_power * 100))\<close> of the two percentage lines,
  for a float \<open>w\<close> and an int \<open>max_power\<close>: a float division, a float product with
  100, and \<open>int()\<close>, which raises OverflowError on a product that is out of range.
\<close>

definition power_pct :: "rat \<Rightarrow> int \<Rightarrow> py_error + int" where
  "power_pct w max_power =
     (case float_truediv w max_power of
        Inl e \<Rightarrow> Inl e
      | Inr q \<Rightarrow>
          (let p = float_round (q * 100)
           in if float_overflow p then Inl OverflowError else Inr (min 100 (py_int p))))"

text \<open>
  The body of \<open>if timestamp > last_timestamp\<close>, as far as it touches the variables
  above (row 3, power).  The widget updates of rows 1 and 2 and the system text belong
  to the display and to the operating system queries and write none of them.  The power
  fields of a sample are finite floats.
\<close>

definition accept_sample :: "args \<Rightarrow> soc_info \<Rightarrow> loop_state \<Rightarrow> sample \<Rightarrow> py_error + loop_state" where
  "accept_sample a soc st s =
     (let cpu_max = or_default (cpu_max_power soc) 50;
          gpu_max = or_default (gpu_max_power soc) 25
      in
      case float_truediv (cpu_W (cpu_metrics_dict s)) (interval a) of Inl e \<Rightarrow> Inl e | Inr cpu_w \<Rightarrow>
      case float_truediv (gpu_W (cpu_metrics_dict s)) (interval a) of Inl e \<Rightarrow> Inl e | Inr gpu_w \<Rightarrow>
      case float_truediv (package_W (cpu_metrics_dict s)) (interval a) of Inl e \<Rightarrow> Inl e | Inr pkg_w \<Rightarrow>
        (let cpu_peak = (if cpu_w > cpu_peak_power st then cpu_w else cpu_peak_power st);
             gpu_peak = (if gpu_w > gpu_peak_power st then gpu_w else gpu_peak_power st);
             pkg_peak = (if pkg_w > package_peak_power st then pkg_w else package_peak_power st);
             cpu_list = deque_append (avg_cpu_power_list st) cpu_w;
             gpu_list = deque_append (avg_gpu_power_list st) gpu_w;
             avg_cpu_w = get_avg (items cpu_list);
             avg_gpu_w = get_avg (items gpu_list)
         in
         case power_pct cpu_w cpu_max of Inl e \<Rightarrow> Inl e | Inr cpu_power_pct \<Rightarrow>
         case power_pct gpu_w gpu_max of Inl e \<Rightarrow> Inl e | Inr gpu_power_pct \<Rightarrow>
           (let fr = \<lparr>fr_timestamp = timestamp s,
                      fr_cpu_w = cpu_w, fr_gpu_w = gpu_w, fr_pkg_w = pkg_w,
                      fr_avg_cpu_w = avg_cpu_w, fr_avg_gpu_w = avg_gpu_w,
                      fr_cpu_peak_power = cpu_peak, fr_gpu_peak_power = gpu_peak,
                      fr_package_peak_power = pkg_peak,
                      fr_cpu_power_pct = cpu_power_pct, fr_gpu_power_pct = gpu_power_pct\<rparr>
            in Inr (st\<lparr>last_timestamp := timestamp s,
                       cpu_peak_power := cpu_peak,
                       gpu_peak_power := gpu_peak,
                       package_peak_power := pkg_peak,
                       avg_cpu_power_list := cpu_list,
                       avg_gpu_power_list := gpu_list,
                       displayed := displayed st @ [fr]\<rparr>))))"

text \<open>
  One iteration of \<open>while True\<close>: the restart block, the poll (\<open>ready\<close> is what
  \<open>provider.get_metrics\<close> returned), the stale-timestamp test, and
  \<open>time.sleep(args.interval)\<close>, which raises ValueError for a negative interval.
\<close>

definition loop_iter :: "args \<Rightarrow> soc_info \<Rightarrow> loop_state \<Rightarrow> sample option \<Rightarrow> py_error + loop_state" where
  "loop_iter a soc st ready =
     (let st1 = restart_policy a st in
      case (case ready of
              None \<Rightarrow> Inr st1
            | Some s \<Rightarrow>
                if timestamp s > last_timestamp st1 then accept_sample a soc st1 s
                else Inr st1) of
        Inl e \<Rightarrow> Inl e
      | Inr st2 \<Rightarrow> if interval a < 0 then Inl ValueError else Inr st2)"

text \<open>The iterations up to an interrupt, one per polled value.\<close>

fun run_loop :: "args \<Rightarrow> soc_info \<Rightarrow> loop_state \<Rightarrow> sample option list \<Rightarrow> py_error + loop_state" where
  "run_loop a soc st [] = Inr st"
| "run_loop a soc st (ready # rest) =
     (case loop_iter a soc st ready of
        Inl e \<Rightarrow> Inl e
      | Inr st' \<Rightarrow> run_loop a soc st' rest)"

text \<open>The formula of the specification for the utilisation percentage, with rounding
  to the nearest integer, for comparison with the one \<open>main\<close> computes: the same
  float quotient and product, \<open>round\<close> in place of \<open>int\<close>.\<close>

definition spec_power_pct :: "rat \<Rightarrow> int \<Rightarrow> py_error + int" where
  "spec_power_pct watts max_draw =
     (case float_truediv watts max_draw of
        Inl e \<Rightarrow> Inl e
      | Inr q \<Rightarrow>
          (let p = float_round (q * 100)
           in if float_overflow p then Inl OverflowError else Inr (min 100 (round p))))"

text \<open>
  \<open>main\<close> from the first reading to an interrupt: the set-up, then one iteration per
  polled value.
\<close>

definition run_session :: "args \<Rightarrow> soc_info \<Rightarrow> rat \<Rightarrow> sample option list \<Rightarrow> py_error + loop_state" where
  "run_session a soc t0 readings =
     (case start_session a t0 of
        Inl e \<Rightarrow> Inl e
      | Inr st0 \<Rightarrow> run_loop a soc st0 readings)"

section \<open>Auxiliary notions for the proofs\<close>

text \<open>A sample with the given timestamp and the three power readings, everything else
  empty or zero; used for concrete runs.\<close>

definition power_sample :: "rat \<Rightarrow> rat \<Rightarrow> rat \<Rightarrow> rat \<Rightarrow> sample" where
  "power_sample ts cpu gpu pkg =
     \<lparr>cpu_metrics_dict =
        \<lparr>e_core = [], p_core = [], cpu_W = cpu, gpu_W = gpu, package_W = pkg, ane_W = 0,
         P_Cluster_i_active = [], P_Cluster_i_freq_Mhz = [],
         P_Cluster_active = 0, P_Cluster_freq_Mhz = 0\<rparr>,
      gpu_metrics_dict = \<lparr>freq_MHz = 0, active = 0\<rparr>,
      thermal_pressure = ''Nominal'',
      timestamp = ts\<rparr>"

text \<open>A decoder for concrete runs: the blob \<open>[1, 2]\<close> is the only well-formed record;
  it parses to the sample stamped 7 with 5, 3 and 9 watts.\<close>

definition demo_api :: "(py_error, unit) plist_api" where
  "demo_api =
     \<lparr>loads = (\<lambda>blob. if blob = [1, 2] then Inr () else Inl ValueError),
      parse_thermal_pressure = (\<lambda>p. Inr ''Nominal''),
      parse_cpu_metrics = (\<lambda>p. Inr (cpu_metrics_dict (power_sample 7 5 3 9))),
      parse_gpu_metrics = (\<lambda>p. Inr (gpu_metrics_dict (power_sample 7 5 3 9))),
      timestamp_of = (\<lambda>p. Inr 7)\<rparr>"

text \<open>Invariants of the loop state.\<close>

definition ts_inv :: "loop_state \<Rightarrow> bool" where
  "ts_inv st \<longleftrightarrow> sorted_wrt (<) (map fr_timestamp (displayed st))
              \<and> (\<forall>f \<in> set (displayed st). fr_timestamp f \<le> last_timestamp st)"

definition pct_ok :: "soc_info \<Rightarrow> frame \<Rightarrow> bool" where
  "pct_ok soc f \<longleftrightarrow>
     power_pct (fr_cpu_w f) (or_default (cpu_max_power soc) 50) = Inr (fr_cpu_power_pct f)
   \<and> power_pct (fr_gpu_w f) (or_default (gpu_max_power soc) 25) = Inr (fr_gpu_power_pct f)"

definition peaks_are_maxima :: "loop_state \<Rightarrow> bool" where
  "peaks_are_maxima st \<longleftrightarrow>
     cpu_peak_power st = foldl max 0 (map fr_cpu_w (displayed st))
   \<and> gpu_peak_power st = foldl max 0 (map fr_gpu_w (displayed st))
   \<and> package_peak_power st = foldl max 0 (map fr_pkg_w (displayed st))"

definition zero_power :: "loop_state \<Rightarrow> bool" where
  "zero_power st \<longleftrightarrow>
     cpu_peak_power st = 0 \<and> gpu_peak_power st = 0 \<and> package_peak_power st = 0
   \<and> (\<forall>x \<in> set (items (avg_cpu_power_list st)). x = 0)
   \<and> (\<forall>x \<in> set (items (avg_gpu_power_list st)). x = 0)
   \<and> (\<forall>f \<in> set (displayed st).
        fr_cpu_w f = 0 \<and> fr_gpu_w f = 0 \<and> fr_pkg_w f = 0
      \<and> fr_avg_cpu_w f = 0 \<and> fr_avg_gpu_w f = 0
      \<and> fr_cpu_peak_power f = 0 \<and> fr_gpu_peak_power f = 0 \<and> fr_package_peak_power f = 0
      \<and> fr_cpu_power_pct f = 0 \<and> fr_gpu_power_pct f = 0)"

section \<open>Rounding to binary64\<close>

lemma pow2_powi: "pow2 k = 2 powi k"
  by (simp add: pow2_def power_int_def field_simps)

lemma pow2_pos: "0 < pow2 k"
  by (simp add: pow2_def)

lemma pow2_add: "pow2 (a + b) = pow2 a * pow2 b"
  by (simp add: pow2_powi power_int_add)

lemma pow2_diff: "pow2 (a - b) = pow2 a / pow2 b"
  by (simp add: pow2_powi power_int_diff)

lemma pow2_mono: "a \<le> b \<Longrightarrow> pow2 a \<le> pow2 b"
  by (simp add: pow2_powi power_int_increasing)

lemma pow2_less_imp: "pow2 a < pow2 b \<Longrightarrow> a < b"
  using pow2_mono [of b a] by (cases "a < b") auto

lemma pow2_nat: "0 \<le> k \<Longrightarrow> pow2 k = of_int (2 ^ nat k)"
  by (simp add: pow2_def)

lemma bitlen_pow2_bounds:
  assumes "0 < (p::int)"
  shows "pow2 (bitlen p - 1) \<le> of_int p" and "of_int p < pow2 (bitlen p)"
proof -
  from bitlen_bounds [OF assms] have b: "2 ^ nat (bitlen p - 1) \<le> p" "p < 2 ^ nat (bitlen p)"
    by simp_all
  have n: "0 \<le> bitlen p - 1" using assms bitlen_eq_zero_iff [of p] bitlen_nonneg [of p]
    by (cases "bitlen p = 0") auto
  have "pow2 (bitlen p - 1) = of_int (2 ^ nat (bitlen p - 1))" using n by (rule pow2_nat)
  also have "\<dots> \<le> of_int p" using b(1) by (simp only: of_int_le_iff)
  finally show "pow2 (bitlen p - 1) \<le> of_int p" .
  have "(of_int p :: rat) < of_int (2 ^ nat (bitlen p))" using b(2) by (simp only: of_int_less_iff)
  also have "\<dots> = pow2 (bitlen p)" using bitlen_nonneg [of p] by (simp add: pow2_nat)
  finally show "of_int p < pow2 (bitlen p)" .
qed

text \<open>\<open>float_exponent\<close> is the binary exponent.\<close>

lemma float_exponent_bounds:
  assumes "x \<noteq> 0"
  shows "pow2 (float_exponent x) \<le> \<bar>x\<bar>" and "\<bar>x\<bar> < pow2 (float_exponent x + 1)"
proof -
  obtain p q where pq: "quotient_of \<bar>x\<bar> = (p, q)" by (cases "quotient_of \<bar>x\<bar>")
  have q: "0 < q" using pq by (rule quotient_of_denom_pos)
  have x: "\<bar>x\<bar> = of_int p / of_int q" using pq by (rule quotient_of_div)
  have p: "0 < p"
  proof (rule ccontr)
    assume "\<not> 0 < p"
    then have "(of_int p :: rat) \<le> 0" by simp
    then have "of_int p / (of_int q :: rat) \<le> 0" using q by (simp add: divide_le_0_iff)
    then show False using x assms by simp
  qed
  let ?k = "bitlen p - bitlen q"
  note bp = bitlen_pow2_bounds [OF p] and bq = bitlen_pow2_bounds [OF q]
  have qpos: "(0::rat) < of_int q" using q by simp
  have up: "\<bar>x\<bar> < pow2 (?k + 1)"
  proof -
    have "\<bar>x\<bar> < pow2 (bitlen p) / of_int q"
      unfolding x using bp(2) qpos by (simp add: divide_strict_right_mono)
    also have "\<dots> \<le> pow2 (bitlen p) / pow2 (bitlen q - 1)"
      using bq(1) pow2_pos [of "bitlen q - 1"] pow2_pos [of "bitlen p"]
      by (simp add: frac_le)
    also have "\<dots> = pow2 (?k + 1)"
      using pow2_diff [of "bitlen p" "bitlen q - 1"] by (simp add: algebra_simps)
    finally show ?thesis .
  qed
  have lo: "pow2 (?k - 1) \<le> \<bar>x\<bar>"
  proof -
    have "pow2 (?k - 1) = pow2 (bitlen p - 1) / pow2 (bitlen q)"
      using pow2_diff [of "bitlen p - 1" "bitlen q"] by (simp add: algebra_simps)
    also have "\<dots> \<le> of_int p / pow2 (bitlen q)"
      using bp(1) pow2_pos [of "bitlen q"] by (simp add: divide_right_mono)
    also have "\<dots> \<le> of_int p / of_int q"
      using bq(2) qpos p by (simp add: frac_le)
    finally show ?thesis unfolding x .
  qed
  have e: "float_exponent x = (if pow2 ?k \<le> \<bar>x\<bar> then ?k else ?k - 1)"
    by (simp add: float_exponent_def pq Let_def)
  show "pow2 (float_exponent x) \<le> \<bar>x\<bar>" using lo by (simp add: e)
  show "\<bar>x\<bar> < pow2 (float_exponent x + 1)" using up by (simp add: e)
qed

lemma round_half_even_bounds:
  "of_int (round_half_even t) \<le> t + 1 / 2" "t - 1 / 2 \<le> of_int (round_half_even t)"
proof -
  have f: "of_int \<lfloor>t\<rfloor> \<le> t" "t < of_int \<lfloor>t\<rfloor> + 1" by linarith+
  show "of_int (round_half_even t) \<le> t + 1 / 2"
    unfolding round_half_even_def Let_def using f by (simp; linarith)
  show "t - 1 / 2 \<le> of_int (round_half_even t)"
    unfolding round_half_even_def Let_def using f by (simp; linarith)
qed

lemma round_half_even_ge:
  assumes "of_int n \<le> t"
  shows "n \<le> round_half_even t"
proof -
  have "n \<le> \<lfloor>t\<rfloor>" using assms by (simp add: le_floor_iff)
  then show ?thesis by (auto simp: round_half_even_def Let_def)
qed

lemma round_half_even_half:
  assumes "0 \<le> t" "t \<le> 1 / 2"
  shows "round_half_even t = 0"
proof -
  have "\<lfloor>t\<rfloor> = 0" using assms by (simp add: floor_eq_iff)
  then show ?thesis using assms by (simp add: round_half_even_def Let_def)
qed

lemma round_half_even_of_int: "round_half_even (of_int n) = n"
  by (simp add: round_half_even_def)

lemma round_half_even_minus: "round_half_even (- t) = - round_half_even t"
proof (cases "t = of_int \<lfloor>t\<rfloor>")
  case True
  then obtain n where t: "t = of_int n" ..
  have "- t = of_int (- n)" by (simp add: t)
  then have "\<lfloor>- t\<rfloor> = - n" by (simp only: floor_of_int)
  then show ?thesis by (simp add: round_half_even_def Let_def t)
next
  case False
  have f: "of_int \<lfloor>t\<rfloor> < t" "t < of_int \<lfloor>t\<rfloor> + 1" using False by linarith+
  have m: "\<lfloor>- t\<rfloor> = - \<lfloor>t\<rfloor> - 1" using f by (simp add: floor_eq_iff)
  show ?thesis
    using f by (auto simp: round_half_even_def Let_def m)
qed

lemma float_exponent_minus: "float_exponent (- x) = float_exponent x"
  by (simp add: float_exponent_def)

lemma float_round_zero: "float_round 0 = 0"
  by (simp add: float_round_def)

lemma float_round_minus: "float_round (- x) = - float_round x"
  by (simp add: float_round_def float_exponent_minus round_half_even_minus Let_def)

lemma float_round_nonzero:
  "x \<noteq> 0 \<Longrightarrow>
   float_round x = of_int (round_half_even (x / pow2 (max (float_exponent x - 52) (- 1074))))
                     * pow2 (max (float_exponent x - 52) (- 1074))"
  by (simp add: float_round_def Let_def)

text \<open>The rounding error is at most half a unit in the last place.\<close>

lemma float_round_le:
  assumes "0 < z"
  shows "float_round z \<le> z + pow2 (max (float_exponent z - 52) (- 1074)) / 2"
proof -
  let ?Q = "pow2 (max (float_exponent z - 52) (- 1074))"
  have Q: "0 < ?Q" by (rule pow2_pos)
  have "float_round z = of_int (round_half_even (z / ?Q)) * ?Q"
    using assms by (simp add: float_round_def Let_def)
  also have "\<dots> \<le> (z / ?Q + 1 / 2) * ?Q"
    using round_half_even_bounds(1) [of "z / ?Q"] Q by (simp only: mult_right_mono less_imp_le)
  also have "\<dots> = z + ?Q / 2" using Q by (simp add: field_simps)
  finally show ?thesis .
qed

text \<open>Every float is a multiple of \<open>2^-1074\<close>.\<close>

lemma float_round_grid:
  assumes "float_round w = w"
  shows "\<exists>m. w = of_int m * pow2 (- 1074)"
proof (cases "w = 0")
  case True
  then show ?thesis by (intro exI [of _ 0]) simp
next
  case False
  let ?q = "max (float_exponent w - 52) (- 1074)"
  have w: "w = of_int (round_half_even (w / pow2 ?q)) * pow2 ?q"
    using assms False by (simp add: float_round_def Let_def)
  have "pow2 ?q = pow2 ((?q + 1074) + (- 1074))" by simp
  also have "\<dots> = pow2 (?q + 1074) * pow2 (- 1074)" by (rule pow2_add)
  also have "pow2 (?q + 1074) = of_int (2 ^ nat (?q + 1074))" by (rule pow2_nat) simp
  finally have "pow2 ?q = of_int (2 ^ nat (?q + 1074)) * pow2 (- 1074)" .
  then have "w = of_int (round_half_even (w / pow2 ?q) * 2 ^ nat (?q + 1074)) * pow2 (- 1074)"
    using w by (simp only: of_int_mult mult.assoc)
  then show ?thesis ..
qed

text \<open>Dividing a positive float by 2 or more gives a smaller float.\<close>

lemma float_round_div_less:
  assumes "0 < w" "float_round w = w" "2 \<le> y"
  shows "float_round (w / y) < w"
proof -
  let ?z = "w / y"
  have z: "0 < ?z" using assms by simp
  have zw: "?z \<le> w / 2" using assms by (simp add: field_simps)
  let ?e = "float_exponent ?z"
  let ?Q = "pow2 (max (?e - 52) (- 1074))"
  have znz: "?z \<noteq> 0" using z by (rule less_imp_neq [THEN not_sym])
  have e: "pow2 ?e \<le> ?z"
    using float_exponent_bounds(1) [OF znz] unfolding abs_of_pos [OF z] .
  show ?thesis
  proof (cases "- 1074 \<le> ?e - 52")
    case True
    then have "max (?e - 52) (- 1074) = ?e + (- 52)" by linarith
    then have "?Q = pow2 (?e + (- 52))" by (simp only:)
    also have "\<dots> = pow2 ?e * pow2 (- 52)" by (rule pow2_add)
    also have "\<dots> \<le> ?z * pow2 (- 52)" using e pow2_pos [of "- 52"] by (simp only: mult_right_mono less_imp_le)
    also have "\<dots> \<le> ?z" using z by (simp add: pow2_def)
    finally have "?Q \<le> ?z" .
    then have "float_round ?z \<le> ?z + ?z / 2" using float_round_le [OF z] by simp
    also have "\<dots> < w" using zw assms(1) by simp
    finally show ?thesis .
  next
    case False
    then have "max (?e - 52) (- 1074) = - 1074" by linarith
    then have Q: "?Q = pow2 (- 1074)" by (simp only:)
    from float_round_grid [OF assms(2)] obtain m where m: "w = of_int m * pow2 (- 1074)" ..
    have u: "0 < pow2 (- 1074)" by (rule pow2_pos)
    have mpos: "0 < m"
    proof (rule ccontr)
      assume "\<not> 0 < m"
      then have "(of_int m :: rat) \<le> 0" by simp
      then have "of_int m * pow2 (- 1074) \<le> 0" using u by (simp add: mult_le_0_iff)
      then show False using m assms(1) by simp
    qed
    have t: "?z / pow2 (- 1074) \<le> of_int m / 2"
    proof -
      have "?z / pow2 (- 1074) \<le> (w / 2) / pow2 (- 1074)"
        using zw u by (simp only: divide_right_mono less_imp_le)
      also have "\<dots> = of_int m / 2" using u by (simp add: m)
      finally show ?thesis .
    qed
    have fr: "float_round ?z = of_int (round_half_even (?z / pow2 (- 1074))) * pow2 (- 1074)"
      using float_round_nonzero [OF znz] unfolding Q .
    show ?thesis
    proof (cases "m = 1")
      case True
      have "0 \<le> ?z / pow2 (- 1074)"
        using z u by (intro divide_nonneg_pos less_imp_le)
      moreover have "?z / pow2 (- 1074) \<le> 1 / 2" using t True by simp
      ultimately have "round_half_even (?z / pow2 (- 1074)) = 0" by (rule round_half_even_half)
      then have "float_round ?z = 0" using fr by simp
      then show ?thesis using assms(1) by simp
    next
      case False
      then have m2: "2 \<le> m" using mpos by simp
      have "(of_int (round_half_even (?z / pow2 (- 1074))) :: rat) \<le> ?z / pow2 (- 1074) + 1 / 2"
        by (rule round_half_even_bounds(1))
      also have "\<dots> \<le> of_int m / 2 + 1 / 2" using t by simp
      also have "\<dots> < of_int m"
      proof -
        have "(2::rat) \<le> of_int m" using m2 by (simp only: of_int_le_iff [symmetric, where 'a = rat] of_int_numeral)
        then show ?thesis by simp
      qed
      finally have "of_int (round_half_even (?z / pow2 (- 1074))) * pow2 (- 1074) < of_int m * pow2 (- 1074)"
        using u by (simp only: mult_strict_right_mono)
      then show ?thesis using fr m by simp
    qed
  qed
qed

lemma float_round_div_neq:
  assumes "w \<noteq> 0" "float_round w = w" "2 \<le> y"
  shows "float_round (w / y) \<noteq> w"
proof (cases "0 < w")
  case True
  from float_round_div_less [OF True assms(2,3)] show ?thesis by simp
next
  case False
  then have n: "0 < - w" using assms(1) by simp
  have "float_round (- w) = - w" using assms(2) by (simp add: float_round_minus)
  from float_round_div_less [OF n this assms(3)]
  have "float_round (- (w / y)) < - w" by simp
  then show ?thesis by (simp add: float_round_minus)
qed

text \<open>Rounding keeps an int of magnitude 2 or more at magnitude 2 or more.\<close>

lemma float_round_int_ge2:
  assumes "2 \<le> (i::int)"
  shows "2 \<le> float_round (of_int i)"
proof -
  let ?z = "of_int i :: rat"
  have z2: "2 \<le> ?z" using assms by (simp only: of_int_le_iff [symmetric, where 'a = rat] of_int_numeral)
  then have z0: "?z \<noteq> 0" "0 < ?z" by simp_all
  let ?e = "float_exponent ?z"
  have "pow2 1 \<le> ?z" using z2 by (simp add: pow2_def)
  also have "?z < pow2 (?e + 1)" using float_exponent_bounds(2) [OF z0(1)] z0(2) by simp
  finally have "1 < ?e + 1" by (rule pow2_less_imp)
  then have e1: "1 \<le> ?e" by simp
  then have q: "max (?e - 52) (- 1074) = ?e - 52" by simp
  have Q: "0 < pow2 (?e - 52)" by (rule pow2_pos)
  have "pow2 ?e \<le> ?z" using float_exponent_bounds(1) [OF z0(1)] z0(2) by simp
  then have "pow2 ?e / pow2 (?e - 52) \<le> ?z / pow2 (?e - 52)"
    using Q by (simp only: divide_right_mono less_imp_le)
  moreover have "pow2 ?e / pow2 (?e - 52) = pow2 (?e - (?e - 52))" by (simp only: pow2_diff)
  moreover have "pow2 (?e - (?e - 52)) = of_int (2 ^ 52)" by (simp add: pow2_def)
  ultimately have "of_int (2 ^ 52) \<le> ?z / pow2 (?e - 52)" by simp
  then have "2 ^ 52 \<le> round_half_even (?z / pow2 (?e - 52))" by (rule round_half_even_ge)
  then have "(of_int (2 ^ 52) :: rat) \<le> of_int (round_half_even (?z / pow2 (?e - 52)))"
    by (simp only: of_int_le_iff)
  then have "of_int (2 ^ 52) * pow2 (?e - 52) \<le> of_int (round_half_even (?z / pow2 (?e - 52))) * pow2 (?e - 52)"
    using Q by (simp only: mult_right_mono less_imp_le)
  moreover have "float_round ?z = of_int (round_half_even (?z / pow2 (?e - 52))) * pow2 (?e - 52)"
    using float_round_nonzero [OF z0(1)] unfolding q .
  moreover have "of_int (2 ^ 52) * pow2 (?e - 52) = pow2 ?e"
  proof -
    have "pow2 ?e = pow2 (52 + (?e - 52))" by simp
    also have "\<dots> = pow2 52 * pow2 (?e - 52)" by (rule pow2_add)
    finally show ?thesis by (simp add: pow2_def)
  qed
  moreover have "pow2 1 \<le> pow2 ?e" using e1 by (rule pow2_mono)
  ultimately show ?thesis by (simp add: pow2_def)
qed

lemma float_round_one: "float_round 1 = 1"
  by code_simp

lemma float_round_int_nonzero:
  assumes "i \<noteq> 0"
  shows "float_round (of_int i) \<noteq> 0"
proof -
  have pos: "float_round (of_int j) \<noteq> 0" if "0 < j" for j :: int
  proof (cases "j = 1")
    case True
    then show ?thesis by (simp add: float_round_one)
  next
    case False
    then have "2 \<le> j" using that by simp
    from float_round_int_ge2 [OF this] show ?thesis by simp
  qed
  show ?thesis
  proof (cases "0 < i")
    case True
    then show ?thesis by (rule pos)
  next
    case False
    then have "0 < - i" using assms by simp
    from pos [OF this] show ?thesis by (simp add: float_round_minus)
  qed
qed

text \<open>Ints of magnitude up to \<open>2^53\<close> are floats.\<close>

lemma float_round_exact:
  assumes "x = of_int n * pow2 (max (float_exponent x - 52) (- 1074))"
  shows "float_round x = x"
proof (cases "x = 0")
  case True
  then show ?thesis by (simp add: float_round_zero)
next
  case False
  let ?Q = "pow2 (max (float_exponent x - 52) (- 1074))"
  have Q: "?Q \<noteq> 0" using pow2_pos [of "max (float_exponent x - 52) (- 1074)"] by simp
  have "x / ?Q = of_int n" using assms Q by (simp add: field_simps)
  then have "round_half_even (x / ?Q) = n" by (simp only: round_half_even_of_int)
  then show ?thesis using float_round_nonzero [OF False] assms by simp
qed

lemma float_round_of_int:
  assumes "\<bar>i\<bar> \<le> 2 ^ 53"
  shows "float_round (of_int i) = of_int i"
proof -
  have pos: "float_round (of_int j) = of_int j" if j: "0 < j" "j \<le> 2 ^ 53" for j :: int
  proof -
    let ?z = "of_int j :: rat"
    have z0: "?z \<noteq> 0" "0 < ?z" using j(1) by simp_all
    let ?e = "float_exponent ?z"
    have lo: "pow2 ?e \<le> ?z" using float_exponent_bounds(1) [OF z0(1)] z0(2) by simp
    have up: "?z < pow2 (?e + 1)" using float_exponent_bounds(2) [OF z0(1)] z0(2) by simp
    have "(1::rat) \<le> ?z" using j(1) by simp
    then have "pow2 0 < pow2 (?e + 1)" using up by (simp add: pow2_def)
    then have e0: "0 \<le> ?e" using pow2_less_imp [of 0 "?e + 1"] by simp
    have "?z \<le> of_int (2 ^ 53)" using j(2) by (simp only: of_int_le_iff)
    then have "?z \<le> pow2 53" by (simp add: pow2_def)
    then have "pow2 ?e < pow2 54" using lo by (simp add: pow2_def)
    then have e53: "?e \<le> 53" using pow2_less_imp [of ?e 54] by simp
    show ?thesis
    proof (cases "?e \<le> 52")
      case True
      have q: "max (?e - 52) (- 1074) = ?e - 52" using e0 by simp
      have "pow2 (52 - ?e) * pow2 (?e - 52) = pow2 ((52 - ?e) + (?e - 52))" by (simp only: pow2_add)
      then have one: "pow2 (52 - ?e) * pow2 (?e - 52) = 1" by (simp add: pow2_def)
      have "pow2 (52 - ?e) = of_int (2 ^ nat (52 - ?e))" using True by (intro pow2_nat) simp
      then have "of_int (j * 2 ^ nat (52 - ?e)) * pow2 (?e - 52) = ?z * (pow2 (52 - ?e) * pow2 (?e - 52))"
        by (simp only: of_int_mult mult.assoc)
      then have "?z = of_int (j * 2 ^ nat (52 - ?e)) * pow2 (max (?e - 52) (- 1074))"
        using one q by simp
      then show ?thesis by (rule float_round_exact)
    next
      case False
      then have e: "?e = 53" using e53 by simp
      have "pow2 53 \<le> ?z" using lo e by simp
      then have "of_int (2 ^ 53) \<le> ?z" by (simp add: pow2_def)
      then have "2 ^ 53 \<le> j" by (simp only: of_int_le_iff)
      then have jv: "j = 2 ^ 53" using j(2) by simp
      have q: "max (?e - 52) (- 1074) = 1" using e by simp
      have "?z = of_int (2 ^ 52) * pow2 1" by (simp add: jv pow2_def)
      then have "?z = of_int (2 ^ 52) * pow2 (max (?e - 52) (- 1074))" using q by simp
      then show ?thesis by (rule float_round_exact)
    qed
  qed
  show ?thesis
  proof (cases "0 < i")
    case True
    then show ?thesis using assms by (intro pos) simp_all
  next
    case False
    show ?thesis
    proof (cases "i = 0")
      case True
      then show ?thesis by (simp add: float_round_zero)
    next
      case f: False
      then have "0 < - i" "- i \<le> 2 ^ 53" using False assms by simp_all
      from pos [OF this] show ?thesis by (simp add: float_round_minus)
    qed
  qed
qed

section \<open>Float division and the percentage\<close>

lemma float_overflow_iff: "float_overflow x \<longleftrightarrow> pow2 1024 \<le> \<bar>x\<bar>"
proof (cases "x = 0")
  case True
  then show ?thesis using pow2_pos [of 1024] by (simp add: float_overflow_def)
next
  case False
  note b = float_exponent_bounds [OF False]
  show ?thesis
  proof
    assume "float_overflow x"
    then have "1024 \<le> float_exponent x" by (simp add: float_overflow_def)
    then have "pow2 1024 \<le> pow2 (float_exponent x)" by (rule pow2_mono)
    then show "pow2 1024 \<le> \<bar>x\<bar>" using b(1) by simp
  next
    assume "pow2 1024 \<le> \<bar>x\<bar>"
    then have "pow2 1024 < pow2 (float_exponent x + 1)" using b(2) by simp
    then have "1024 < float_exponent x + 1" by (rule pow2_less_imp)
    then show "float_overflow x" using False by (simp add: float_overflow_def)
  qed
qed

lemma float_of_int_small:
  assumes "\<bar>i\<bar> \<le> 2 ^ 53"
  shows "float_of_int i = Inr (of_int i)"
proof -
  have "\<bar>of_int i :: rat\<bar> = of_int \<bar>i\<bar>" by simp
  also have "\<dots> \<le> of_int (2 ^ 53)" using assms by (simp only: of_int_le_iff)
  also have "\<dots> < pow2 1024" by (simp add: pow2_def)
  finally have "\<not> float_overflow (of_int i)" by (simp add: float_overflow_iff)
  then show ?thesis
    by (simp add: float_of_int_def float_round_of_int [OF assms] Let_def)
qed

lemma float_truediv_Inr:
  assumes "float_truediv x i = Inr w"
  shows "i \<noteq> 0" and "\<exists>y. float_of_int i = Inr y \<and> y \<noteq> 0 \<and> w = float_round (x / y)"
proof -
  show "\<exists>y. float_of_int i = Inr y \<and> y \<noteq> 0 \<and> w = float_round (x / y)"
    using assms by (auto simp: float_truediv_def split: sum.splits if_splits)
  show "i \<noteq> 0"
    using assms
    by (auto simp: float_truediv_def float_of_int_def float_round_zero Let_def
        split: sum.splits if_splits)
qed

lemma float_truediv_no_zero_division:
  assumes "i \<noteq> 0"
  shows "float_truediv x i \<noteq> Inl ZeroDivisionError"
  using float_round_int_nonzero [OF assms]
  by (auto simp: float_truediv_def float_of_int_def Let_def split: sum.splits if_splits)

lemma float_truediv_zero:
  assumes "float_truediv 0 i = Inr w"
  shows "w = 0"
  using float_truediv_Inr(2) [OF assms] by (auto simp: float_round_zero)

lemma float_truediv_eq_self:
  assumes "float_round x = x" "0 < i" "float_truediv x i = Inr w"
  shows "w = x \<longleftrightarrow> i = 1 \<or> x = 0"
proof -
  from float_truediv_Inr(2) [OF assms(3)] obtain y where
    y: "float_of_int i = Inr y" "w = float_round (x / y)" by blast
  have yv: "y = float_round (of_int i)"
    using y(1) by (auto simp: float_of_int_def Let_def split: if_splits)
  show ?thesis
  proof (cases "i = 1")
    case True
    then have "y = 1" using yv by (simp add: float_round_one)
    then show ?thesis using y(2) assms(1) True by simp
  next
    case False
    then have "2 \<le> i" using assms(2) by simp
    from float_round_int_ge2 [OF this] have y2: "2 \<le> y" using yv by simp
    show ?thesis
    proof (cases "x = 0")
      case True
      then show ?thesis using y(2) by (simp add: float_round_zero)
    next
      case nz: False
      from float_round_div_neq [OF nz assms(1) y2] show ?thesis using y(2) False nz by simp
    qed
  qed
qed

lemma power_pct_Inr:
  assumes "power_pct w m = Inr k"
  shows "\<exists>y. float_of_int m = Inr y \<and> y \<noteq> 0
            \<and> k = min 100 (py_int (float_round (float_round (w / y) * 100)))"
    and "k \<le> 100"
  using assms
  by (auto simp: power_pct_def float_truediv_def Let_def split: sum.splits if_splits)

lemma power_pct_no_zero_division:
  assumes "m \<noteq> 0"
  shows "power_pct w m \<noteq> Inl ZeroDivisionError"
  using float_truediv_no_zero_division [OF assms, of w]
  by (auto simp: power_pct_def Let_def split: sum.splits if_splits)

lemma power_pct_zero:
  assumes "power_pct 0 m = Inr k"
  shows "k = 0"
  using power_pct_Inr(1) [OF assms] by (auto simp: float_round_zero py_int_def)

lemma py_int_truncates: "\<bar>of_int (py_int x)\<bar> \<le> \<bar>x\<bar> \<and> \<bar>x - of_int (py_int x)\<bar> < 1"
  unfolding py_int_def by (simp; linarith)

text \<open>Values of the float operations on the inputs of the concrete runs below.\<close>

lemma estimate_tdp_example:
  "estimate_tdp ''Intel(R) Core(TM) i7-9750H CPU @ 2.60GHz'' = Some 35"
  by code_simp

lemma py_truediv_examples:
  "py_truediv 30 1 = Inr 30" "py_truediv 2 1 = Inr 2" "py_truediv 1 2 = Inr (1 / 2)"
  "py_truediv 30 2 = Inr 15"
  by code_simp+

lemma float_truediv_examples:
  "float_truediv 0 1 = Inr 0" "float_truediv 1 1 = Inr 1" "float_truediv 4 1 = Inr 4"
  "float_truediv 5 1 = Inr 5" "float_truediv 6 1 = Inr 6" "float_truediv 8 1 = Inr 8"
  "float_truediv 9 1 = Inr 9" "float_truediv 10 1 = Inr 10" "float_truediv 17 1 = Inr 17"
  "float_truediv 33 1 = Inr 33" "float_truediv 38 1 = Inr 38"
  "float_truediv (29 / 4) 1 = Inr (29 / 4)" "float_truediv 3 1 = Inr 3"
  "float_truediv 0 2 = Inr 0" "float_truediv 4 2 = Inr 2" "float_truediv 10 2 = Inr 5"
  "float_truediv 16 2 = Inr 8" "float_truediv 29 2 = Inr (29 / 2)"
  by code_simp+

lemma power_pct_examples:
  "power_pct 0 20 = Inr 0" "power_pct 0 25 = Inr 0" "power_pct 0 30 = Inr 0"
  "power_pct 0 35 = Inr 0"
  "power_pct 1 20 = Inr 5" "power_pct 2 20 = Inr 10" "power_pct 4 20 = Inr 20"
  "power_pct 5 20 = Inr 25" "power_pct 8 20 = Inr 40" "power_pct 9 20 = Inr 45"
  by code_simp+

lemma power_pct_examples_more:
  "power_pct 5 25 = Inr 20" "power_pct 3 25 = Inr 12" "power_pct 5 30 = Inr 16"
  "power_pct 33 30 = Inr 100"
  "power_pct (29 / 4) 25 = Inr 28" "power_pct (29 / 2) 25 = Inr 57"
  "spec_power_pct 5 30 = Inr 17" "spec_power_pct (29 / 4) 25 = Inr 29"
  by code_simp+

lemmas float_examples =
  py_truediv_examples float_truediv_examples power_pct_examples power_pct_examples_more

section \<open>The rolling window\<close>







lemma new_power_list_Inr:
  "new_power_list av iv = Inr d \<Longrightarrow>
   iv \<noteq> 0 \<and> items d = [] \<and> int (maxlen d) = py_int (float_round (of_int av / of_int iv))"
  by (auto simp: new_power_list_def py_truediv_def deque_new_def Let_def split: if_splits)




section \<open>The session loop: one iteration\<close>

lemma restart_policy_keeps:
  "last_timestamp (restart_policy a st) = last_timestamp st"
  "cpu_peak_power (restart_policy a st) = cpu_peak_power st"
  "gpu_peak_power (restart_policy a st) = gpu_peak_power st"
  "package_peak_power (restart_policy a st) = package_peak_power st"
  "avg_cpu_power_list (restart_policy a st) = avg_cpu_power_list st"
  "avg_gpu_power_list (restart_policy a st) = avg_gpu_power_list st"
  "displayed (restart_policy a st) = displayed st"
  by (simp_all add: restart_policy_def Let_def)

lemma accept_sample_Inr:
  assumes "accept_sample a soc st s = Inr st'"
  shows "interval a \<noteq> 0"
    and "last_timestamp st' = timestamp s"
    and "cpu_peak_power st' = max (cpu_peak_power st) (fr_cpu_w (last (displayed st')))"
    and "gpu_peak_power st' = max (gpu_peak_power st) (fr_gpu_w (last (displayed st')))"
    and "package_peak_power st' = max (package_peak_power st) (fr_pkg_w (last (displayed st')))"
    and "avg_cpu_power_list st' = deque_append (avg_cpu_power_list st) (fr_cpu_w (last (displayed st')))"
    and "avg_gpu_power_list st' = deque_append (avg_gpu_power_list st) (fr_gpu_w (last (displayed st')))"
    and "count st' = count st" and "restarts st' = restarts st"
  using assms float_truediv_Inr(1) [of "cpu_W (cpu_metrics_dict s)" "interval a"]
  by (auto simp: accept_sample_def Let_def max_def split: sum.splits)

lemma accept_sample_frame:
  assumes "accept_sample a soc st s = Inr st'"
  shows "\<exists>fr. displayed st' = displayed st @ [fr]
     \<and> fr_timestamp fr = timestamp s
     \<and> float_truediv (cpu_W (cpu_metrics_dict s)) (interval a) = Inr (fr_cpu_w fr)
     \<and> float_truediv (gpu_W (cpu_metrics_dict s)) (interval a) = Inr (fr_gpu_w fr)
     \<and> float_truediv (package_W (cpu_metrics_dict s)) (interval a) = Inr (fr_pkg_w fr)
     \<and> fr_avg_cpu_w fr = get_avg (items (avg_cpu_power_list st'))
     \<and> fr_avg_gpu_w fr = get_avg (items (avg_gpu_power_list st'))
     \<and> fr_cpu_peak_power fr = cpu_peak_power st'
     \<and> fr_gpu_peak_power fr = gpu_peak_power st'
     \<and> fr_package_peak_power fr = package_peak_power st'
     \<and> power_pct (fr_cpu_w fr) (or_default (cpu_max_power soc) 50) = Inr (fr_cpu_power_pct fr)
     \<and> power_pct (fr_gpu_w fr) (or_default (gpu_max_power soc) 25) = Inr (fr_gpu_power_pct fr)"
  using assms by (auto simp: accept_sample_def Let_def split: sum.splits)

lemma loop_iter_Inr:
  assumes "loop_iter a soc st ready = Inr st'"
  shows "0 \<le> interval a \<and>
         ((\<exists>s. ready = Some s \<and> last_timestamp st < timestamp s
                \<and> accept_sample a soc (restart_policy a st) s = Inr st')
          \<or> ((ready = None \<or> (\<exists>s. ready = Some s \<and> timestamp s \<le> last_timestamp st))
              \<and> st' = restart_policy a st))"
  using assms
  by (auto simp: loop_iter_def Let_def restart_policy_keeps split: option.splits if_splits sum.splits)

lemma run_session_Inr:
  assumes "run_session a soc t0 rs = Inr st"
  obtains st0 where "start_session a t0 = Inr st0" "run_loop a soc st0 rs = Inr st"
  using assms by (auto simp: run_session_def split: sum.splits)

lemma run_loop_invariant:
  assumes "run_loop a soc st rs = Inr st'" and "I st" and "\<forall>s. Some s \<in> set rs \<longrightarrow> Q s"
    and restart: "\<And>st1. I st1 \<Longrightarrow> I (restart_policy a st1)"
    and accept: "\<And>st1 st2 s. I st1 \<Longrightarrow> Q s \<Longrightarrow> accept_sample a soc st1 s = Inr st2 \<Longrightarrow> I st2"
  shows "I st'"
  using assms(1-3)
proof (induction rs arbitrary: st)
  case Nil
  then show ?case by simp
next
  case (Cons r rs)
  then obtain st1 where s1: "loop_iter a soc st r = Inr st1" "run_loop a soc st1 rs = Inr st'"
    by (auto split: sum.splits)
  from loop_iter_Inr [OF s1(1)]
  consider s where "r = Some s" "accept_sample a soc (restart_policy a st) s = Inr st1"
    | "st1 = restart_policy a st" by blast
  then have "I st1"
  proof cases
    case 1
    have "Q s" using Cons.prems(3) 1(1) by simp
    from accept [OF restart [OF Cons.prems(2)] this 1(2)] show ?thesis .
  next
    case 2
    then show ?thesis using restart [OF Cons.prems(2)] by simp
  qed
  moreover have "\<forall>s. Some s \<in> set rs \<longrightarrow> Q s" using Cons.prems(3) by simp
  ultimately show ?case using Cons.IH [OF s1(2)] by blast
qed

lemma or_default_nonzero: "d \<noteq> 0 \<Longrightarrow> or_default v d \<noteq> 0"
  by (simp add: or_default_def split: option.splits)


lemmas session_eval =
  run_session_def start_session_def new_power_list_def float_examples deque_new_def
  py_int_def loop_iter_def restart_policy_def accept_sample_def deque_append_def
  get_avg_def or_default_def power_sample_def Let_def


section \<open>Accepted samples\<close>

lemma loop_iter_ts_inv:
  assumes "loop_iter a soc st ready = Inr st'" "ts_inv st"
  shows "ts_inv st' \<and> last_timestamp st \<le> last_timestamp st'"
proof -
  from loop_iter_Inr [OF assms(1)]
  consider s where "ready = Some s" "last_timestamp st < timestamp s"
      "accept_sample a soc (restart_policy a st) s = Inr st'"
    | "st' = restart_policy a st" by blast
  then show ?thesis
  proof cases
    case 1
    from accept_sample_frame [OF 1(3)] obtain fr where
      fr: "displayed st' = displayed st @ [fr]" "fr_timestamp fr = timestamp s"
      by (auto simp: restart_policy_keeps)
    have lt: "last_timestamp st' = timestamp s" using accept_sample_Inr(2) [OF 1(3)] .
    show ?thesis using assms(2) 1(2) fr lt
      by (fastforce simp: ts_inv_def sorted_wrt_append)
  next
    case 2
    then show ?thesis using assms(2) by (simp add: ts_inv_def restart_policy_keeps)
  qed
qed

lemma run_loop_ts_inv:
  "run_loop a soc st rs = Inr st' \<Longrightarrow> ts_inv st \<Longrightarrow>
   ts_inv st' \<and> last_timestamp st \<le> last_timestamp st'"
proof (induction rs arbitrary: st)
  case Nil
  then show ?case by simp
next
  case (Cons r rs)
  then obtain st1 where s1: "loop_iter a soc st r = Inr st1" "run_loop a soc st1 rs = Inr st'"
    by (auto split: sum.splits)
  from loop_iter_ts_inv [OF s1(1) Cons.prems(2)] Cons.IH [OF s1(2)]
  show ?case by force
qed

lemma loop_iter_displayed:
  assumes "loop_iter a soc st ready = Inr st'"
  shows "\<exists>new. displayed st' = displayed st @ new
           \<and> (\<forall>f \<in> set new. last_timestamp st < fr_timestamp f)
           \<and> subseq (map fr_timestamp new) (map timestamp (List.map_filter id [ready]))"
proof -
  from loop_iter_Inr [OF assms]
  consider s where "ready = Some s" "last_timestamp st < timestamp s"
      "accept_sample a soc (restart_policy a st) s = Inr st'"
    | "st' = restart_policy a st" by blast
  then show ?thesis
  proof cases
    case 1
    from accept_sample_frame [OF 1(3)] obtain fr where
      fr: "displayed st' = displayed st @ [fr]" "fr_timestamp fr = timestamp s"
      by (auto simp: restart_policy_keeps)
    have "subseq (map fr_timestamp [fr]) (map timestamp (List.map_filter id [ready]))"
      using 1(1) fr(2) by (simp add: List.map_filter_simps)
    then show ?thesis using fr 1(2) by auto
  next
    case 2
    then show ?thesis by (simp add: restart_policy_keeps)
  qed
qed

lemma map_filter_id_Cons:
  "List.map_filter id (r # rs) = List.map_filter id [r] @ List.map_filter id rs"
  by (cases r) (simp_all add: List.map_filter_simps)

lemma run_loop_displayed:
  "run_loop a soc st rs = Inr st' \<Longrightarrow> ts_inv st \<Longrightarrow>
   \<exists>new. displayed st' = displayed st @ new
        \<and> (\<forall>f \<in> set new. last_timestamp st < fr_timestamp f)
        \<and> subseq (map fr_timestamp new) (map timestamp (List.map_filter id rs))"
proof (induction rs arbitrary: st)
  case Nil
  then show ?case by (simp add: List.map_filter_simps)
next
  case (Cons r rs)
  then obtain st1 where s1: "loop_iter a soc st r = Inr st1" "run_loop a soc st1 rs = Inr st'"
    by (auto split: sum.splits)
  from loop_iter_ts_inv [OF s1(1) Cons.prems(2)]
  have i1: "ts_inv st1" and le: "last_timestamp st \<le> last_timestamp st1" by simp_all
  from loop_iter_displayed [OF s1(1)] obtain n1 where
    n1: "displayed st1 = displayed st @ n1" "\<forall>f \<in> set n1. last_timestamp st < fr_timestamp f"
        "subseq (map fr_timestamp n1) (map timestamp (List.map_filter id [r]))" by blast
  from Cons.IH [OF s1(2) i1] obtain n2 where
    n2: "displayed st' = displayed st1 @ n2" "\<forall>f \<in> set n2. last_timestamp st1 < fr_timestamp f"
        "subseq (map fr_timestamp n2) (map timestamp (List.map_filter id rs))" by blast
  have sp: "map timestamp (List.map_filter id (r # rs))
            = map timestamp (List.map_filter id [r]) @ map timestamp (List.map_filter id rs)"
    by (simp only: map_filter_id_Cons [of r rs] map_append)
  have "subseq (map fr_timestamp n1 @ map fr_timestamp n2)
               (map timestamp (List.map_filter id [r]) @ map timestamp (List.map_filter id rs))"
    using n1(3) n2(3) by (rule list_emb_append_mono)
  then have sub: "subseq (map fr_timestamp (n1 @ n2)) (map timestamp (List.map_filter id (r # rs)))"
    by (simp only: sp map_append)
  have gt: "\<forall>f \<in> set (n1 @ n2). last_timestamp st < fr_timestamp f"
    using n1(2) n2(2) le by fastforce
  have d: "displayed st' = displayed st @ (n1 @ n2)" using n1(1) n2(1) by simp
  from d gt sub show ?case by blast
qed

lemma start_session_Inr:
  assumes "start_session a t0 = Inr st0"
  shows "interval a \<noteq> 0" "count st0 = 0" "restarts st0 = 0" "last_timestamp st0 = t0"
    "cpu_peak_power st0 = 0" "gpu_peak_power st0 = 0" "package_peak_power st0 = 0"
    "items (avg_cpu_power_list st0) = []" "items (avg_gpu_power_list st0) = []"
    "displayed st0 = []"
    "int (maxlen (avg_cpu_power_list st0)) = py_int (float_round (of_int (avg a) / of_int (interval a)))"
    "int (maxlen (avg_gpu_power_list st0)) = py_int (float_round (of_int (avg a) / of_int (interval a)))"
  using assms new_power_list_Inr [of "avg a" "interval a"]
  by (auto simp: start_session_def split: sum.splits)

lemma stale_step:
  assumes "loop_iter a soc st (Some s) = Inr st'" "timestamp s \<le> last_timestamp st"
  shows "st' = restart_policy a st"
  using loop_iter_Inr [OF assms(1)] assms(2) by auto


text \<open>
  Claim C3.  In every run of the session loop the frames shown (one per accepted sample)
  have strictly increasing timestamps, all later than the first reading; they are a
  subsequence, in order, of the samples that were polled; and an iteration whose sample
  has a timestamp less than or equal to \<open>last_timestamp\<close> changes neither
  \<open>last_timestamp\<close>, nor a peak, nor a rolling window, nor the frames shown.
\<close>

theorem accepted_timestamps_strictly_increase:
  assumes "run_session a soc t0 readings = Inr st"
  shows "sorted_wrt (<) (map fr_timestamp (displayed st))
       \<and> (\<forall>f \<in> set (displayed st). t0 < fr_timestamp f \<and> fr_timestamp f \<le> last_timestamp st)
       \<and> subseq (map fr_timestamp (displayed st)) (map timestamp (List.map_filter id readings))
       \<and> (\<forall>st1 st2 s. timestamp s \<le> last_timestamp st1 \<longrightarrow> loop_iter a soc st1 (Some s) = Inr st2 \<longrightarrow>
            last_timestamp st2 = last_timestamp st1
          \<and> cpu_peak_power st2 = cpu_peak_power st1
          \<and> gpu_peak_power st2 = gpu_peak_power st1
          \<and> package_peak_power st2 = package_peak_power st1
          \<and> avg_cpu_power_list st2 = avg_cpu_power_list st1
          \<and> avg_gpu_power_list st2 = avg_gpu_power_list st1
          \<and> displayed st2 = displayed st1)"
proof -
  from assms obtain st0 where s: "start_session a t0 = Inr st0" "run_loop a soc st0 readings = Inr st"
    by (rule run_session_Inr)
  have i0: "ts_inv st0" using start_session_Inr(10) [OF s(1)] by (simp add: ts_inv_def)
  from run_loop_ts_inv [OF s(2) i0] have i: "ts_inv st" by simp
  from run_loop_displayed [OF s(2) i0] obtain new where
    n: "displayed st = displayed st0 @ new" "\<forall>f \<in> set new. last_timestamp st0 < fr_timestamp f"
       "subseq (map fr_timestamp new) (map timestamp (List.map_filter id readings))" by blast
  have d: "displayed st = new" using n(1) start_session_Inr(10) [OF s(1)] by simp
  have a: "sorted_wrt (<) (map fr_timestamp (displayed st))" using i by (simp add: ts_inv_def)
  have b: "\<forall>f \<in> set (displayed st). t0 < fr_timestamp f \<and> fr_timestamp f \<le> last_timestamp st"
    using i n(2) d start_session_Inr(4) [OF s(1)] by (simp add: ts_inv_def)
  have c: "subseq (map fr_timestamp (displayed st)) (map timestamp (List.map_filter id readings))"
    using n(3) d by simp
  have e: "\<forall>st1 st2 s. timestamp s \<le> last_timestamp st1 \<longrightarrow> loop_iter a soc st1 (Some s) = Inr st2 \<longrightarrow>
            last_timestamp st2 = last_timestamp st1
          \<and> cpu_peak_power st2 = cpu_peak_power st1
          \<and> gpu_peak_power st2 = gpu_peak_power st1
          \<and> package_peak_power st2 = package_peak_power st1
          \<and> avg_cpu_power_list st2 = avg_cpu_power_list st1
          \<and> avg_gpu_power_list st2 = avg_gpu_power_list st1
          \<and> displayed st2 = displayed st1"
  proof (intro allI impI)
    fix st1 st2 s
    assume "timestamp s \<le> last_timestamp st1" "loop_iter a soc st1 (Some s) = Inr st2"
    then have "st2 = restart_policy a st1" using stale_step by blast
    then show "last_timestamp st2 = last_timestamp st1
          \<and> cpu_peak_power st2 = cpu_peak_power st1
          \<and> gpu_peak_power st2 = gpu_peak_power st1
          \<and> package_peak_power st2 = package_peak_power st1
          \<and> avg_cpu_power_list st2 = avg_cpu_power_list st1
          \<and> avg_gpu_power_list st2 = avg_gpu_power_list st1
          \<and> displayed st2 = displayed st1"
      by (simp add: restart_policy_keeps)
  qed
  show ?thesis using a b c e by blast
qed

text \<open>A run with a duplicate (timestamp 1 again), an empty poll and a late sample
  (timestamp 2 after 3): only the samples stamped 1 and 3 are shown.\<close>

theorem accepted_timestamps_strictly_increase_witness:
  "\<exists>st. run_session \<lparr>interval = 1, avg = 2, max_count = 0\<rparr>
            \<lparr>name = ''Apple M1'', cpu_max_power = Some 20, gpu_max_power = Some 20\<rparr> 0
            [Some (power_sample 1 5 1 6), Some (power_sample 1 7 1 8), None,
             Some (power_sample 3 9 1 10), Some (power_sample 2 4 1 5)] = Inr st
        \<and> sorted_wrt (<) (map fr_timestamp (displayed st))
        \<and> map fr_timestamp (displayed st) = [1, 3]
        \<and> map fr_avg_cpu_w (displayed st) = [5, 7]
        \<and> map fr_cpu_peak_power (displayed st) = [5, 9]"
proof -
  let ?a = "\<lparr>interval = 1, avg = 2, max_count = 0\<rparr>"
  let ?soc = "\<lparr>name = ''Apple M1'', cpu_max_power = Some 20, gpu_max_power = Some 20\<rparr>"
  let ?rs = "[Some (power_sample 1 5 1 6), Some (power_sample 1 7 1 8), None,
              Some (power_sample 3 9 1 10), Some (power_sample 2 4 1 5)]"
  let ?st = "projr (run_session ?a ?soc 0 ?rs)"
  have h: "run_session ?a ?soc 0 ?rs = Inr ?st"
    by (simp add: session_eval)
  have v: "map fr_timestamp (displayed ?st) = [1, 3]
         \<and> map fr_avg_cpu_w (displayed ?st) = [5, 7]
         \<and> map fr_cpu_peak_power (displayed ?st) = [5, 9]"
    by (simp add: session_eval)
  from accepted_timestamps_strictly_increase [OF h]
  have s: "sorted_wrt (<) (map fr_timestamp (displayed ?st))" by (rule conjunct1)
  from v have v1: "map fr_timestamp (displayed ?st) = [1, 3]" by (rule conjunct1)
  from v have v2: "map fr_avg_cpu_w (displayed ?st) = [5, 7]"
    by (rule conjunct2 [THEN conjunct1])
  from v have v3: "map fr_cpu_peak_power (displayed ?st) = [5, 9]"
    by (rule conjunct2 [THEN conjunct2])
  show ?thesis by (rule exI [of _ ?st]) (intro conjI h s v1 v2 v3)
qed

section \<open>Peaks\<close>

lemma foldl_max_snoc: "foldl max z (xs @ [x]) = max (foldl max z xs) x"
  by simp

lemma accept_sample_peaks_are_maxima:
  assumes "peaks_are_maxima st" "accept_sample a soc st s = Inr st'"
  shows "peaks_are_maxima st'"
proof -
  from accept_sample_frame [OF assms(2)] obtain fr where
    fr: "displayed st' = displayed st @ [fr]"
    by blast
  show ?thesis
    using assms(1) accept_sample_Inr(3-5) [OF assms(2)]
    by (simp add: peaks_are_maxima_def fr)
qed

lemma run_loop_peaks_are_maxima:
  assumes "run_loop a soc st rs = Inr st'" "peaks_are_maxima st"
  shows "peaks_are_maxima st'"
proof (rule run_loop_invariant [where I = peaks_are_maxima and Q = "\<lambda>s. True",
        OF assms(1) assms(2)])
  show "\<forall>s. Some s \<in> set rs \<longrightarrow> True" by simp
next
  fix st1 :: loop_state
  assume "peaks_are_maxima st1"
  then show "peaks_are_maxima (restart_policy a st1)"
    by (simp add: peaks_are_maxima_def restart_policy_keeps)
next
  fix st1 st2 :: loop_state and s
  assume "peaks_are_maxima st1" "accept_sample a soc st1 s = Inr st2"
  then show "peaks_are_maxima st2" by (rule accept_sample_peaks_are_maxima)
qed

lemma run_loop_peaks_mono:
  assumes "run_loop a soc st rs = Inr st'"
  shows "cpu_peak_power st \<le> cpu_peak_power st'
       \<and> gpu_peak_power st \<le> gpu_peak_power st'
       \<and> package_peak_power st \<le> package_peak_power st'"
proof (rule run_loop_invariant [where
        I = "\<lambda>x. cpu_peak_power st \<le> cpu_peak_power x
               \<and> gpu_peak_power st \<le> gpu_peak_power x
               \<and> package_peak_power st \<le> package_peak_power x"
        and Q = "\<lambda>s. True", OF assms])
  show "cpu_peak_power st \<le> cpu_peak_power st
       \<and> gpu_peak_power st \<le> gpu_peak_power st
       \<and> package_peak_power st \<le> package_peak_power st" by simp
  show "\<forall>s. Some s \<in> set rs \<longrightarrow> True" by simp
next
  fix st1 :: loop_state
  assume "cpu_peak_power st \<le> cpu_peak_power st1
       \<and> gpu_peak_power st \<le> gpu_peak_power st1
       \<and> package_peak_power st \<le> package_peak_power st1"
  then show "cpu_peak_power st \<le> cpu_peak_power (restart_policy a st1)
       \<and> gpu_peak_power st \<le> gpu_peak_power (restart_policy a st1)
       \<and> package_peak_power st \<le> package_peak_power (restart_policy a st1)"
    by (simp add: restart_policy_keeps)
next
  fix st1 st2 :: loop_state and s
  assume i: "cpu_peak_power st \<le> cpu_peak_power st1
       \<and> gpu_peak_power st \<le> gpu_peak_power st1
       \<and> package_peak_power st \<le> package_peak_power st1"
    and acc: "accept_sample a soc st1 s = Inr st2"
  show "cpu_peak_power st \<le> cpu_peak_power st2
       \<and> gpu_peak_power st \<le> gpu_peak_power st2
       \<and> package_peak_power st \<le> package_peak_power st2"
    using i accept_sample_Inr(3-5) [OF acc] by (simp add: max_def)
qed

lemma accepted_step:
  assumes "loop_iter a soc st (Some s) = Inr st'" "last_timestamp st < timestamp s"
  shows "accept_sample a soc (restart_policy a st) s = Inr st'"
  using loop_iter_Inr [OF assms(1)] assms(2) by auto

text \<open>
  Claim C5, as the code has it.  Each of the three peaks (CPU, GPU, package) starts at 0
  and is updated as \<open>max(current_peak, instantaneous_value)\<close> on every accepted sample;
  it never decreases over any continuation of a run, it equals the maximum of 0 and all
  instantaneous values shown since the program started, and the restart block of the
  loop (a new monitor after \<open>max_count\<close> iterations) leaves it unchanged: a peak is
  never reset, neither implicitly nor by a restart.
\<close>

theorem peak_power_monotone_never_reset:
  assumes "run_session a soc t0 readings = Inr st1"
    and "run_loop a soc st1 more_readings = Inr st2"
  shows "cpu_peak_power st1 \<le> cpu_peak_power st2
       \<and> gpu_peak_power st1 \<le> gpu_peak_power st2
       \<and> package_peak_power st1 \<le> package_peak_power st2
       \<and> cpu_peak_power st2 = foldl max 0 (map fr_cpu_w (displayed st2))
       \<and> gpu_peak_power st2 = foldl max 0 (map fr_gpu_w (displayed st2))
       \<and> package_peak_power st2 = foldl max 0 (map fr_pkg_w (displayed st2))
       \<and> (\<forall>st. cpu_peak_power (restart_policy a st) = cpu_peak_power st
             \<and> gpu_peak_power (restart_policy a st) = gpu_peak_power st
             \<and> package_peak_power (restart_policy a st) = package_peak_power st)
       \<and> (\<forall>st s st'. last_timestamp st < timestamp s \<longrightarrow> loop_iter a soc st (Some s) = Inr st' \<longrightarrow>
             (\<exists>cpu_w gpu_w pkg_w.
                float_truediv (cpu_W (cpu_metrics_dict s)) (interval a) = Inr cpu_w
              \<and> float_truediv (gpu_W (cpu_metrics_dict s)) (interval a) = Inr gpu_w
              \<and> float_truediv (package_W (cpu_metrics_dict s)) (interval a) = Inr pkg_w
              \<and> cpu_peak_power st' = max (cpu_peak_power st) cpu_w
              \<and> gpu_peak_power st' = max (gpu_peak_power st) gpu_w
              \<and> package_peak_power st' = max (package_peak_power st) pkg_w))"
proof -
  from assms(1) obtain st0 where s: "start_session a t0 = Inr st0" "run_loop a soc st0 readings = Inr st1"
    by (rule run_session_Inr)
  have "peaks_are_maxima st0"
    using start_session_Inr(5,6,7,10) [OF s(1)] by (simp add: peaks_are_maxima_def)
  from run_loop_peaks_are_maxima [OF s(2) this] have "peaks_are_maxima st1" .
  from run_loop_peaks_are_maxima [OF assms(2) this] have m: "peaks_are_maxima st2" .
  have step: "\<forall>st s st'. last_timestamp st < timestamp s \<longrightarrow> loop_iter a soc st (Some s) = Inr st' \<longrightarrow>
             (\<exists>cpu_w gpu_w pkg_w.
                float_truediv (cpu_W (cpu_metrics_dict s)) (interval a) = Inr cpu_w
              \<and> float_truediv (gpu_W (cpu_metrics_dict s)) (interval a) = Inr gpu_w
              \<and> float_truediv (package_W (cpu_metrics_dict s)) (interval a) = Inr pkg_w
              \<and> cpu_peak_power st' = max (cpu_peak_power st) cpu_w
              \<and> gpu_peak_power st' = max (gpu_peak_power st) gpu_w
              \<and> package_peak_power st' = max (package_peak_power st) pkg_w)"
  proof (intro allI impI)
    fix st s st'
    assume "last_timestamp st < timestamp s" "loop_iter a soc st (Some s) = Inr st'"
    then have acc: "accept_sample a soc (restart_policy a st) s = Inr st'"
      using accepted_step by blast
    from accept_sample_frame [OF acc] obtain fr where
      fr: "displayed st' = displayed (restart_policy a st) @ [fr]"
          "float_truediv (cpu_W (cpu_metrics_dict s)) (interval a) = Inr (fr_cpu_w fr)"
          "float_truediv (gpu_W (cpu_metrics_dict s)) (interval a) = Inr (fr_gpu_w fr)"
          "float_truediv (package_W (cpu_metrics_dict s)) (interval a) = Inr (fr_pkg_w fr)"
      by blast
    have l: "last (displayed st') = fr" by (simp add: fr(1))
    have "cpu_peak_power st' = max (cpu_peak_power st) (fr_cpu_w fr)"
         "gpu_peak_power st' = max (gpu_peak_power st) (fr_gpu_w fr)"
         "package_peak_power st' = max (package_peak_power st) (fr_pkg_w fr)"
      using accept_sample_Inr(3-5) [OF acc] by (simp_all add: l restart_policy_keeps)
    then show "\<exists>cpu_w gpu_w pkg_w.
                float_truediv (cpu_W (cpu_metrics_dict s)) (interval a) = Inr cpu_w
              \<and> float_truediv (gpu_W (cpu_metrics_dict s)) (interval a) = Inr gpu_w
              \<and> float_truediv (package_W (cpu_metrics_dict s)) (interval a) = Inr pkg_w
              \<and> cpu_peak_power st' = max (cpu_peak_power st) cpu_w
              \<and> gpu_peak_power st' = max (gpu_peak_power st) gpu_w
              \<and> package_peak_power st' = max (package_peak_power st) pkg_w"
      using fr(2-4) by blast
  qed
  show ?thesis
    using run_loop_peaks_mono [OF assms(2)] m step
    by (simp add: peaks_are_maxima_def restart_policy_keeps)
qed

theorem peak_power_monotone_never_reset_witness:
  "\<exists>st1 st2.
     run_session \<lparr>interval = 1, avg = 30, max_count = 1\<rparr>
        \<lparr>name = ''Apple M1'', cpu_max_power = Some 20, gpu_max_power = Some 20\<rparr> 0
        [Some (power_sample 1 9 8 17)] = Inr st1
   \<and> run_loop \<lparr>interval = 1, avg = 30, max_count = 1\<rparr>
        \<lparr>name = ''Apple M1'', cpu_max_power = Some 20, gpu_max_power = Some 20\<rparr> st1
        [Some (power_sample 2 5 4 9)] = Inr st2
   \<and> restarts st1 = 0 \<and> restarts st2 = 1
   \<and> cpu_peak_power st1 \<le> cpu_peak_power st2
   \<and> cpu_peak_power st2 = foldl max 0 (map fr_cpu_w (displayed st2))
   \<and> cpu_peak_power st2 = 9"
proof -
  let ?a = "\<lparr>interval = 1, avg = 30, max_count = 1\<rparr>"
  let ?soc = "\<lparr>name = ''Apple M1'', cpu_max_power = Some 20, gpu_max_power = Some 20\<rparr>"
  let ?st1 = "projr (run_session ?a ?soc 0 [Some (power_sample 1 9 8 17)])"
  let ?st2 = "projr (run_loop ?a ?soc ?st1 [Some (power_sample 2 5 4 9)])"
  have h1: "run_session ?a ?soc 0 [Some (power_sample 1 9 8 17)] = Inr ?st1"
    by (simp add: session_eval)
  have h2: "run_loop ?a ?soc ?st1 [Some (power_sample 2 5 4 9)] = Inr ?st2"
    by (simp add: session_eval)
  have v: "restarts ?st1 = 0 \<and> restarts ?st2 = 1 \<and> cpu_peak_power ?st2 = 9"
    by (simp add: session_eval)
  from peak_power_monotone_never_reset [OF h1 h2] h1 h2 v
  show ?thesis by blast
qed

text \<open>With \<open>--max_count 1\<close> the second iteration restarts the monitor; the first value
  pushed after the restart is 5 W, and the CPU peak stays at 9 W (GPU 8, package 17)
  instead of being reset to it.\<close>

theorem peak_power_kept_across_restart_counterexample:
  "map_sum id (\<lambda>st. (restarts st, map fr_cpu_w (displayed st), cpu_peak_power st,
                     gpu_peak_power st, package_peak_power st))
     (run_session \<lparr>interval = 1, avg = 30, max_count = 1\<rparr>
        \<lparr>name = ''Apple M1'', cpu_max_power = Some 20, gpu_max_power = Some 20\<rparr> 0
        [Some (power_sample 1 9 8 17), Some (power_sample 2 5 4 9)])
   = Inr (1, [9, 5], 9, 8, 17)"
  by (simp add: session_eval)

section \<open>Utilisation percentage\<close>

lemma run_loop_pct:
  assumes "run_loop a soc st rs = Inr st'" "\<forall>f \<in> set (displayed st). pct_ok soc f"
  shows "\<forall>f \<in> set (displayed st'). pct_ok soc f"
proof (rule run_loop_invariant [where I = "\<lambda>st. \<forall>f \<in> set (displayed st). pct_ok soc f"
        and Q = "\<lambda>s. True", OF assms(1) assms(2)])
  show "\<forall>s. Some s \<in> set rs \<longrightarrow> True" by simp
next
  fix st1 :: loop_state
  assume "\<forall>f \<in> set (displayed st1). pct_ok soc f"
  then show "\<forall>f \<in> set (displayed (restart_policy a st1)). pct_ok soc f"
    by (simp add: restart_policy_keeps)
next
  fix st1 st2 :: loop_state and s
  assume i: "\<forall>f \<in> set (displayed st1). pct_ok soc f" and acc: "accept_sample a soc st1 s = Inr st2"
  from accept_sample_frame [OF acc] obtain fr where
    "displayed st2 = displayed st1 @ [fr]" "pct_ok soc fr"
    unfolding pct_ok_def by blast
  then show "\<forall>f \<in> set (displayed st2). pct_ok soc f" using i by simp
qed

text \<open>
  Claim C6, as the code has it.  For every frame shown, the power-utilisation
  percentage is \<open>min(100, int(watts / max_draw * 100))\<close>, for the CPU and for the GPU:
  the float quotient by the limit, the float product with 100, then \<open>int\<close>, which
  truncates towards zero (it does not round to nearest), then the clamp to 100.  The
  divisor is \<open>soc["cpu_max_power"] or 50\<close> (\<open>gpu_max_power or 25\<close>): a limit that is
  missing or 0 is replaced by the default, so the divisor is never zero and the
  percentage never raises ZeroDivisionError.  With a limit of 30 and 33 W the percentage
  is 100.
\<close>

theorem power_pct_truncates_and_clamps:
  assumes "run_session a soc t0 readings = Inr st"
  shows "(\<forall>f \<in> set (displayed st).
            power_pct (fr_cpu_w f) (or_default (cpu_max_power soc) 50) = Inr (fr_cpu_power_pct f)
          \<and> power_pct (fr_gpu_w f) (or_default (gpu_max_power soc) 25) = Inr (fr_gpu_power_pct f)
          \<and> fr_cpu_power_pct f \<le> 100 \<and> fr_gpu_power_pct f \<le> 100)
       \<and> (\<forall>w m k. power_pct w m = Inr k \<longrightarrow>
            (\<exists>y. float_of_int m = Inr y \<and> y \<noteq> 0
                \<and> k = min 100 (py_int (float_round (float_round (w / y) * 100)))))
       \<and> (\<forall>m. \<bar>m\<bar> \<le> 2 ^ 53 \<longrightarrow> float_of_int m = Inr (of_int m))
       \<and> (\<forall>x. \<bar>of_int (py_int x)\<bar> \<le> \<bar>x\<bar> \<and> \<bar>x - of_int (py_int x)\<bar> < 1)
       \<and> (\<forall>w m. m \<noteq> 0 \<longrightarrow> power_pct w m \<noteq> Inl ZeroDivisionError)
       \<and> or_default (cpu_max_power soc) 50 \<noteq> 0
       \<and> or_default (gpu_max_power soc) 25 \<noteq> 0
       \<and> (cpu_max_power soc = None \<or> cpu_max_power soc = Some 0
            \<longrightarrow> or_default (cpu_max_power soc) 50 = 50)
       \<and> (gpu_max_power soc = None \<or> gpu_max_power soc = Some 0
            \<longrightarrow> or_default (gpu_max_power soc) 25 = 25)
       \<and> power_pct 33 (or_default (Some 30) 50) = Inr 100"
proof -
  from assms obtain st0 where s: "start_session a t0 = Inr st0" "run_loop a soc st0 readings = Inr st"
    by (rule run_session_Inr)
  have "\<forall>f \<in> set (displayed st0). pct_ok soc f" using start_session_Inr(10) [OF s(1)] by simp
  from run_loop_pct [OF s(2) this] have p: "\<forall>f \<in> set (displayed st). pct_ok soc f" .
  have c1: "\<forall>f \<in> set (displayed st).
            power_pct (fr_cpu_w f) (or_default (cpu_max_power soc) 50) = Inr (fr_cpu_power_pct f)
          \<and> power_pct (fr_gpu_w f) (or_default (gpu_max_power soc) 25) = Inr (fr_gpu_power_pct f)
          \<and> fr_cpu_power_pct f \<le> 100 \<and> fr_gpu_power_pct f \<le> 100"
  proof
    fix f assume "f \<in> set (displayed st)"
    then have ok: "power_pct (fr_cpu_w f) (or_default (cpu_max_power soc) 50) = Inr (fr_cpu_power_pct f)"
        "power_pct (fr_gpu_w f) (or_default (gpu_max_power soc) 25) = Inr (fr_gpu_power_pct f)"
      using p by (simp_all add: pct_ok_def)
    from ok power_pct_Inr(2) [OF ok(1)] power_pct_Inr(2) [OF ok(2)]
    show "power_pct (fr_cpu_w f) (or_default (cpu_max_power soc) 50) = Inr (fr_cpu_power_pct f)
          \<and> power_pct (fr_gpu_w f) (or_default (gpu_max_power soc) 25) = Inr (fr_gpu_power_pct f)
          \<and> fr_cpu_power_pct f \<le> 100 \<and> fr_gpu_power_pct f \<le> 100"
      by simp
  qed
  have c2: "\<forall>w m k. power_pct w m = Inr k \<longrightarrow>
            (\<exists>y. float_of_int m = Inr y \<and> y \<noteq> 0
                \<and> k = min 100 (py_int (float_round (float_round (w / y) * 100))))"
    using power_pct_Inr(1) by blast
  have c3: "\<forall>m. \<bar>m\<bar> \<le> 2 ^ 53 \<longrightarrow> float_of_int m = Inr (of_int m)"
    using float_of_int_small by blast
  have c4: "\<forall>x. \<bar>of_int (py_int x)\<bar> \<le> \<bar>x\<bar> \<and> \<bar>x - of_int (py_int x)\<bar> < 1"
    using py_int_truncates by blast
  have c5: "\<forall>w m. m \<noteq> 0 \<longrightarrow> power_pct w m \<noteq> Inl ZeroDivisionError"
    using power_pct_no_zero_division by blast
  have c6: "or_default (cpu_max_power soc) 50 \<noteq> 0" "or_default (gpu_max_power soc) 25 \<noteq> 0"
    by (simp_all add: or_default_nonzero)
  have c7: "cpu_max_power soc = None \<or> cpu_max_power soc = Some 0
            \<longrightarrow> or_default (cpu_max_power soc) 50 = 50"
    "gpu_max_power soc = None \<or> gpu_max_power soc = Some 0
            \<longrightarrow> or_default (gpu_max_power soc) 25 = 25"
    by (auto simp: or_default_def)
  have c8: "power_pct 33 (or_default (Some 30) 50) = Inr 100"
    by (simp add: or_default_def power_pct_examples_more)
  show ?thesis by (intro conjI c1 c2 c3 c4 c5 c6 c7 c8)
qed

text \<open>A run on a chip with a CPU limit of 30 and no GPU limit: 33 W is shown as 100,
  the GPU default 25 is used (5 W is 20 percent), and 7.25 W at a limit of 25 is shown
  as 28, the float product being 28.999999999999996.\<close>

theorem power_pct_truncates_and_clamps_witness:
  "\<exists>st. run_session \<lparr>interval = 1, avg = 30, max_count = 0\<rparr>
            \<lparr>name = ''Apple M1 Pro'', cpu_max_power = Some 30, gpu_max_power = None\<rparr> 0
            [Some (power_sample 1 33 5 38), Some (power_sample 2 5 (29 / 4) 17)] = Inr st
        \<and> map fr_cpu_power_pct (displayed st) = [100, 16]
        \<and> map fr_gpu_power_pct (displayed st) = [20, 28]
        \<and> or_default (gpu_max_power
               \<lparr>name = ''Apple M1 Pro'', cpu_max_power = Some 30, gpu_max_power = None\<rparr>) 25 = 25"
proof -
  let ?a = "\<lparr>interval = 1, avg = 30, max_count = 0\<rparr>"
  let ?soc = "\<lparr>name = ''Apple M1 Pro'', cpu_max_power = Some 30, gpu_max_power = None\<rparr>"
  let ?rs = "[Some (power_sample 1 33 5 38), Some (power_sample 2 5 (29 / 4) 17)]"
  let ?st = "projr (run_session ?a ?soc 0 ?rs)"
  have h: "run_session ?a ?soc 0 ?rs = Inr ?st"
    by (simp add: session_eval)
  have v: "map fr_cpu_power_pct (displayed ?st) = [100, 16]
         \<and> map fr_gpu_power_pct (displayed ?st) = [20, 28]"
    by (simp add: session_eval)
  note t = power_pct_truncates_and_clamps [OF h]
  from t have "gpu_max_power ?soc = None \<or> gpu_max_power ?soc = Some 0
      \<longrightarrow> or_default (gpu_max_power ?soc) 25 = 25"
    by (rule conjunct2 [THEN conjunct2, THEN conjunct2, THEN conjunct2, THEN conjunct2,
          THEN conjunct2, THEN conjunct2, THEN conjunct2, THEN conjunct1])
  then have d: "or_default (gpu_max_power ?soc) 25 = 25" by simp
  from v have v1: "map fr_cpu_power_pct (displayed ?st) = [100, 16]" by (rule conjunct1)
  from v have v2: "map fr_gpu_power_pct (displayed ?st) = [20, 28]" by (rule conjunct2)
  show ?thesis by (rule exI [of _ ?st]) (intro conjI h v1 v2 d)
qed

text \<open>With a limit of 30 and 5 W the product is 16.67: the code shows 16, the formula
  with rounding gives 17.\<close>

theorem power_pct_not_rounded_counterexample:
  "map_sum id (\<lambda>st. map fr_cpu_power_pct (displayed st))
     (run_session \<lparr>interval = 1, avg = 30, max_count = 0\<rparr>
        \<lparr>name = ''Apple M1 Pro'', cpu_max_power = Some 30, gpu_max_power = Some 30\<rparr> 0
        [Some (power_sample 1 5 0 5)])
   = Inr [16]
   \<and> spec_power_pct 5 30 = Inr 17"
  by (simp add: session_eval)

section \<open>Instantaneous watts\<close>

text \<open>
  Claim C10, as the code has it.  In an iteration that accepts a sample, the value fed
  to the three peaks, to the two rolling windows, to the frame shown and to the two
  utilisation percentages is the sample's raw field (\<open>cpu_W\<close>, \<open>gpu_W\<close>,
  \<open>package_W\<close>) divided, as a float, by the sampling interval, which is positive
  there: the nearest float to the quotient of the field by the interval.  For a raw
  field that is a finite float, the derived value equals the raw one exactly when the
  interval is 1 or the raw value is 0.
\<close>

theorem instantaneous_watts_divided_by_interval:
  assumes "loop_iter a soc st (Some s) = Inr st'" and "last_timestamp st < timestamp s"
  shows "0 < interval a
       \<and> (\<exists>cpu_w gpu_w pkg_w.
            float_truediv (cpu_W (cpu_metrics_dict s)) (interval a) = Inr cpu_w
          \<and> float_truediv (gpu_W (cpu_metrics_dict s)) (interval a) = Inr gpu_w
          \<and> float_truediv (package_W (cpu_metrics_dict s)) (interval a) = Inr pkg_w
          \<and> cpu_peak_power st' = max (cpu_peak_power st) cpu_w
          \<and> gpu_peak_power st' = max (gpu_peak_power st) gpu_w
          \<and> package_peak_power st' = max (package_peak_power st) pkg_w
          \<and> avg_cpu_power_list st' = deque_append (avg_cpu_power_list st) cpu_w
          \<and> avg_gpu_power_list st' = deque_append (avg_gpu_power_list st) gpu_w
          \<and> (\<exists>fr. displayed st' = displayed st @ [fr]
                \<and> fr_cpu_w fr = cpu_w \<and> fr_gpu_w fr = gpu_w \<and> fr_pkg_w fr = pkg_w
                \<and> power_pct cpu_w (or_default (cpu_max_power soc) 50) = Inr (fr_cpu_power_pct fr)
                \<and> power_pct gpu_w (or_default (gpu_max_power soc) 25) = Inr (fr_gpu_power_pct fr))
          \<and> (is_float (cpu_W (cpu_metrics_dict s)) \<longrightarrow>
                (cpu_w = cpu_W (cpu_metrics_dict s)
                   \<longleftrightarrow> interval a = 1 \<or> cpu_W (cpu_metrics_dict s) = 0))
          \<and> (is_float (gpu_W (cpu_metrics_dict s)) \<longrightarrow>
                (gpu_w = gpu_W (cpu_metrics_dict s)
                   \<longleftrightarrow> interval a = 1 \<or> gpu_W (cpu_metrics_dict s) = 0))
          \<and> (is_float (package_W (cpu_metrics_dict s)) \<longrightarrow>
                (pkg_w = package_W (cpu_metrics_dict s)
                   \<longleftrightarrow> interval a = 1 \<or> package_W (cpu_metrics_dict s) = 0)))
       \<and> (\<forall>x i w. float_truediv x i = Inr w \<longrightarrow>
            (\<exists>y. float_of_int i = Inr y \<and> y \<noteq> 0 \<and> w = float_round (x / y)))
       \<and> (\<forall>i. \<bar>i\<bar> \<le> 2 ^ 53 \<longrightarrow> float_of_int i = Inr (of_int i))"
proof -
  have acc: "accept_sample a soc (restart_policy a st) s = Inr st'"
    using assms by (rule accepted_step)
  have nz: "interval a \<noteq> 0" using accept_sample_Inr(1) [OF acc] .
  have pos: "0 < interval a" using loop_iter_Inr [OF assms(1)] nz by simp
  from accept_sample_frame [OF acc] obtain fr where
    fr: "displayed st' = displayed st @ [fr]"
        "float_truediv (cpu_W (cpu_metrics_dict s)) (interval a) = Inr (fr_cpu_w fr)"
        "float_truediv (gpu_W (cpu_metrics_dict s)) (interval a) = Inr (fr_gpu_w fr)"
        "float_truediv (package_W (cpu_metrics_dict s)) (interval a) = Inr (fr_pkg_w fr)"
        "power_pct (fr_cpu_w fr) (or_default (cpu_max_power soc) 50) = Inr (fr_cpu_power_pct fr)"
        "power_pct (fr_gpu_w fr) (or_default (gpu_max_power soc) 25) = Inr (fr_gpu_power_pct fr)"
    by (auto simp: restart_policy_keeps)
  have l: "last (displayed st') = fr" by (simp add: fr(1))
  have pk: "cpu_peak_power st' = max (cpu_peak_power st) (fr_cpu_w fr)"
      "gpu_peak_power st' = max (gpu_peak_power st) (fr_gpu_w fr)"
      "package_peak_power st' = max (package_peak_power st) (fr_pkg_w fr)"
      "avg_cpu_power_list st' = deque_append (avg_cpu_power_list st) (fr_cpu_w fr)"
      "avg_gpu_power_list st' = deque_append (avg_gpu_power_list st) (fr_gpu_w fr)"
    using accept_sample_Inr(3-7) [OF acc] by (simp_all add: l restart_policy_keeps)
  have frame: "\<exists>f. displayed st' = displayed st @ [f]
                \<and> fr_cpu_w f = fr_cpu_w fr \<and> fr_gpu_w f = fr_gpu_w fr \<and> fr_pkg_w f = fr_pkg_w fr
                \<and> power_pct (fr_cpu_w fr) (or_default (cpu_max_power soc) 50) = Inr (fr_cpu_power_pct f)
                \<and> power_pct (fr_gpu_w fr) (or_default (gpu_max_power soc) 25) = Inr (fr_gpu_power_pct f)"
    using fr(1,5,6) by (intro exI [of _ fr]) simp
  have e1: "is_float (cpu_W (cpu_metrics_dict s)) \<longrightarrow>
                (fr_cpu_w fr = cpu_W (cpu_metrics_dict s)
                   \<longleftrightarrow> interval a = 1 \<or> cpu_W (cpu_metrics_dict s) = 0)"
    using float_truediv_eq_self [OF _ pos fr(2)] by (simp add: is_float_def)
  have e2: "is_float (gpu_W (cpu_metrics_dict s)) \<longrightarrow>
                (fr_gpu_w fr = gpu_W (cpu_metrics_dict s)
                   \<longleftrightarrow> interval a = 1 \<or> gpu_W (cpu_metrics_dict s) = 0)"
    using float_truediv_eq_self [OF _ pos fr(3)] by (simp add: is_float_def)
  have e3: "is_float (package_W (cpu_metrics_dict s)) \<longrightarrow>
                (fr_pkg_w fr = package_W (cpu_metrics_dict s)
                   \<longleftrightarrow> interval a = 1 \<or> package_W (cpu_metrics_dict s) = 0)"
    using float_truediv_eq_self [OF _ pos fr(4)] by (simp add: is_float_def)
  have main: "\<exists>cpu_w gpu_w pkg_w.
            float_truediv (cpu_W (cpu_metrics_dict s)) (interval a) = Inr cpu_w
          \<and> float_truediv (gpu_W (cpu_metrics_dict s)) (interval a) = Inr gpu_w
          \<and> float_truediv (package_W (cpu_metrics_dict s)) (interval a) = Inr pkg_w
          \<and> cpu_peak_power st' = max (cpu_peak_power st) cpu_w
          \<and> gpu_peak_power st' = max (gpu_peak_power st) gpu_w
          \<and> package_peak_power st' = max (package_peak_power st) pkg_w
          \<and> avg_cpu_power_list st' = deque_append (avg_cpu_power_list st) cpu_w
          \<and> avg_gpu_power_list st' = deque_append (avg_gpu_power_list st) gpu_w
          \<and> (\<exists>fr. displayed st' = displayed st @ [fr]
                \<and> fr_cpu_w fr = cpu_w \<and> fr_gpu_w fr = gpu_w \<and> fr_pkg_w fr = pkg_w
                \<and> power_pct cpu_w (or_default (cpu_max_power soc) 50) = Inr (fr_cpu_power_pct fr)
                \<and> power_pct gpu_w (or_default (gpu_max_power soc) 25) = Inr (fr_gpu_power_pct fr))
          \<and> (is_float (cpu_W (cpu_metrics_dict s)) \<longrightarrow>
                (cpu_w = cpu_W (cpu_metrics_dict s)
                   \<longleftrightarrow> interval a = 1 \<or> cpu_W (cpu_metrics_dict s) = 0))
          \<and> (is_float (gpu_W (cpu_metrics_dict s)) \<longrightarrow>
                (gpu_w = gpu_W (cpu_metrics_dict s)
                   \<longleftrightarrow> interval a = 1 \<or> gpu_W (cpu_metrics_dict s) = 0))
          \<and> (is_float (package_W (cpu_metrics_dict s)) \<longrightarrow>
                (pkg_w = package_W (cpu_metrics_dict s)
                   \<longleftrightarrow> interval a = 1 \<or> package_W (cpu_metrics_dict s) = 0))"
    by (rule exI [of _ "fr_cpu_w fr"], rule exI [of _ "fr_gpu_w fr"], rule exI [of _ "fr_pkg_w fr"])
       (intro conjI fr(2-4) pk frame e1 e2 e3)
  have conv: "\<forall>x i w. float_truediv x i = Inr w \<longrightarrow>
            (\<exists>y. float_of_int i = Inr y \<and> y \<noteq> 0 \<and> w = float_round (x / y))"
    using float_truediv_Inr(2) by blast
  have small: "\<forall>i. \<bar>i\<bar> \<le> 2 ^ 53 \<longrightarrow> float_of_int i = Inr (of_int i)"
    using float_of_int_small by blast
  show ?thesis by (intro conjI pos main conv small)
qed

text \<open>At \<open>--interval 2\<close> a sample with 10 W, 4 W and 16 W is shown as 5 W, 2 W and
  8 W.  At \<open>--interval 2\<close> and a limit of 25, 29 W gives 14.5 W and the percentage 57,
  the float product being 57.99999999999999.\<close>

theorem instantaneous_watts_divided_by_interval_witness:
  "\<exists>st0 st.
      start_session \<lparr>interval = 2, avg = 30, max_count = 0\<rparr> 0 = Inr st0
    \<and> loop_iter \<lparr>interval = 2, avg = 30, max_count = 0\<rparr>
         \<lparr>name = ''Apple M2'', cpu_max_power = Some 25, gpu_max_power = Some 20\<rparr> st0
         (Some (power_sample 1 29 4 16)) = Inr st
    \<and> is_float 29
    \<and> cpu_peak_power st = 29 / 2 \<and> gpu_peak_power st = 2 \<and> package_peak_power st = 8
    \<and> items (avg_cpu_power_list st) = [29 / 2] \<and> items (avg_gpu_power_list st) = [2]
    \<and> map fr_cpu_w (displayed st) = [29 / 2]
    \<and> map fr_cpu_power_pct (displayed st) = [57]
    \<and> map fr_gpu_power_pct (displayed st) = [10]"
proof -
  let ?a = "\<lparr>interval = 2, avg = 30, max_count = 0\<rparr>"
  let ?soc = "\<lparr>name = ''Apple M2'', cpu_max_power = Some 25, gpu_max_power = Some 20\<rparr>"
  let ?ini = "projr (start_session ?a 0)"
  let ?s = "power_sample 1 29 4 16"
  let ?st = "projr (loop_iter ?a ?soc ?ini (Some ?s))"
  have h0: "start_session ?a 0 = Inr ?ini" by (simp add: session_eval)
  have h: "loop_iter ?a ?soc ?ini (Some ?s) = Inr ?st" by (simp add: session_eval)
  have lt: "last_timestamp ?ini < timestamp ?s" by (simp add: session_eval)
  have fl: "is_float 29" by code_simp
  from instantaneous_watts_divided_by_interval [OF h lt]
  have "\<exists>cpu_w. float_truediv (cpu_W (cpu_metrics_dict ?s)) (interval ?a) = Inr cpu_w
          \<and> cpu_peak_power ?st = max (cpu_peak_power ?ini) cpu_w"
    by blast
  then obtain cpu_w where
    c: "float_truediv (cpu_W (cpu_metrics_dict ?s)) (interval ?a) = Inr cpu_w"
       "cpu_peak_power ?st = max (cpu_peak_power ?ini) cpu_w"
    by blast
  have w: "cpu_w = 29 / 2" using c(1) by (simp add: power_sample_def float_examples)
  have p0: "cpu_peak_power ?ini = 0" by (simp add: session_eval)
  have v1: "cpu_peak_power ?st = 29 / 2" by (simp only: c(2) p0 w max_def) simp
  have v: "gpu_peak_power ?st = 2 \<and> package_peak_power ?st = 8
    \<and> items (avg_cpu_power_list ?st) = [29 / 2] \<and> items (avg_gpu_power_list ?st) = [2]
    \<and> map fr_cpu_w (displayed ?st) = [29 / 2]
    \<and> map fr_cpu_power_pct (displayed ?st) = [57]
    \<and> map fr_gpu_power_pct (displayed ?st) = [10]"
    by (simp add: session_eval)
  show ?thesis
    by (rule exI [of _ ?ini], rule exI [of _ ?st]) (intro conjI h0 h fl v1 v)
qed

text \<open>With \<open>--interval 2\<close> on the Intel provider the raw CPU field is 0 and so is the
  value derived from it: they coincide although the interval is not 1.\<close>

theorem zero_watts_coincide_for_any_interval_counterexample:
  "map_sum id (\<lambda>st. map fr_cpu_w (displayed st))
     (run_session \<lparr>interval = 2, avg = 30, max_count = 0\<rparr>
        (IntelProvider_get_soc_info ''Intel(R) Core(TM) i7-9750H CPU @ 2.60GHz'') 0
        [IntelProvider_get_metrics
           (Inr \<lparr>time_now = 1, per_cpu_percent = [50], cpu_freq_percpu = [],
                 cpu_freq_all = None, thermal_status = ''Nominal''\<rparr>)])
   = Inr [0]
   \<and> map_option (\<lambda>s. cpu_W (cpu_metrics_dict s))
       (IntelProvider_get_metrics
           (Inr \<lparr>time_now = 1, per_cpu_percent = [50], cpu_freq_percpu = [],
                 cpu_freq_all = None, thermal_status = ''Nominal''\<rparr>))
     = Some 0
   \<and> interval \<lparr>interval = 2, avg = 30, max_count = 0\<rparr> \<noteq> 1"
  by (simp add: session_eval IntelProvider_get_metrics_def IntelProvider_get_soc_info_def
      estimate_tdp_example)

section \<open>The Intel provider reports no power\<close>

lemma intel_sample_zero:
  assumes "IntelProvider_get_metrics probe = Some s"
  shows "cpu_W (cpu_metrics_dict s) = 0 \<and> gpu_W (cpu_metrics_dict s) = 0
       \<and> package_W (cpu_metrics_dict s) = 0 \<and> ane_W (cpu_metrics_dict s) = 0
       \<and> active (gpu_metrics_dict s) = 0 \<and> freq_MHz (gpu_metrics_dict s) = 0"
  using assms by (auto simp: IntelProvider_get_metrics_def Let_def split: sum.splits)

lemma get_avg_zeros: "\<forall>x \<in> set xs. x = 0 \<Longrightarrow> get_avg xs = 0"
proof -
  assume z: "\<forall>x \<in> set xs. x = 0"
  then have "sum_list xs = 0" by (induction xs) simp_all
  then show ?thesis by (simp add: get_avg_def)
qed

lemma deque_append_zeros:
  assumes "\<forall>x \<in> set (items d). x = (0::rat)"
  shows "\<forall>x \<in> set (items (deque_append d 0)). x = 0"
proof
  fix x assume "x \<in> set (items (deque_append d 0))"
  then have "x \<in> set (items d @ [0])"
    by (auto simp: deque_append_def Let_def split: if_splits dest: list.set_sel(2) [rotated])
  then show "x = 0" using assms by auto
qed

lemma accept_sample_zero_power:
  assumes z: "zero_power st" and acc: "accept_sample a soc st s = Inr st'"
    and s0: "cpu_W (cpu_metrics_dict s) = 0" "gpu_W (cpu_metrics_dict s) = 0"
            "package_W (cpu_metrics_dict s) = 0"
  shows "zero_power st'"
proof -
  from accept_sample_frame [OF acc] obtain fr where
    fr: "displayed st' = displayed st @ [fr]"
        "float_truediv (cpu_W (cpu_metrics_dict s)) (interval a) = Inr (fr_cpu_w fr)"
        "float_truediv (gpu_W (cpu_metrics_dict s)) (interval a) = Inr (fr_gpu_w fr)"
        "float_truediv (package_W (cpu_metrics_dict s)) (interval a) = Inr (fr_pkg_w fr)"
        "fr_avg_cpu_w fr = get_avg (items (avg_cpu_power_list st'))"
        "fr_avg_gpu_w fr = get_avg (items (avg_gpu_power_list st'))"
        "fr_cpu_peak_power fr = cpu_peak_power st'"
        "fr_gpu_peak_power fr = gpu_peak_power st'"
        "fr_package_peak_power fr = package_peak_power st'"
        "power_pct (fr_cpu_w fr) (or_default (cpu_max_power soc) 50) = Inr (fr_cpu_power_pct fr)"
        "power_pct (fr_gpu_w fr) (or_default (gpu_max_power soc) 25) = Inr (fr_gpu_power_pct fr)"
    by blast
  have w0: "fr_cpu_w fr = 0" "fr_gpu_w fr = 0" "fr_pkg_w fr = 0"
    using fr(2-4) float_truediv_zero [of "interval a"] by (simp_all add: s0)
  have p0: "fr_cpu_power_pct fr = 0" "fr_gpu_power_pct fr = 0"
    using fr(10,11) power_pct_zero by (simp_all add: w0)
  have l: "last (displayed st') = fr" by (simp add: fr(1))
  note r = accept_sample_Inr [OF acc]
  have c: "avg_cpu_power_list st' = deque_append (avg_cpu_power_list st) 0"
    and g: "avg_gpu_power_list st' = deque_append (avg_gpu_power_list st) 0"
    using r(6,7) by (simp_all add: l w0)
  have cz: "\<forall>x \<in> set (items (avg_cpu_power_list st')). x = 0"
    unfolding c using z by (intro deque_append_zeros) (simp add: zero_power_def)
  have gz: "\<forall>x \<in> set (items (avg_gpu_power_list st')). x = 0"
    unfolding g using z by (intro deque_append_zeros) (simp add: zero_power_def)
  have pk: "cpu_peak_power st' = 0" "gpu_peak_power st' = 0" "package_peak_power st' = 0"
    using r(3-5) z by (simp_all add: l w0 zero_power_def)
  have f0: "fr_cpu_w fr = 0 \<and> fr_gpu_w fr = 0 \<and> fr_pkg_w fr = 0
      \<and> fr_avg_cpu_w fr = 0 \<and> fr_avg_gpu_w fr = 0
      \<and> fr_cpu_peak_power fr = 0 \<and> fr_gpu_peak_power fr = 0 \<and> fr_package_peak_power fr = 0
      \<and> fr_cpu_power_pct fr = 0 \<and> fr_gpu_power_pct fr = 0"
    using fr(5-9) w0 p0 pk get_avg_zeros [OF cz] get_avg_zeros [OF gz]
    by simp
  show ?thesis
    unfolding zero_power_def using pk cz gz fr(1) f0 z
    by (simp add: zero_power_def)
qed

lemma run_loop_zero_power:
  assumes "run_loop a soc st (map IntelProvider_get_metrics probes) = Inr st'"
    and "zero_power st"
  shows "zero_power st'"
proof (rule run_loop_invariant [where I = zero_power
        and Q = "\<lambda>s. cpu_W (cpu_metrics_dict s) = 0 \<and> gpu_W (cpu_metrics_dict s) = 0
                    \<and> package_W (cpu_metrics_dict s) = 0", OF assms(1) assms(2)])
  show "\<forall>s. Some s \<in> set (map IntelProvider_get_metrics probes) \<longrightarrow>
          cpu_W (cpu_metrics_dict s) = 0 \<and> gpu_W (cpu_metrics_dict s) = 0
        \<and> package_W (cpu_metrics_dict s) = 0"
    using intel_sample_zero by auto
next
  fix st1 :: loop_state
  assume "zero_power st1"
  then show "zero_power (restart_policy a st1)"
    by (simp add: zero_power_def restart_policy_keeps)
next
  fix st1 st2 :: loop_state and s
  assume "zero_power st1"
    "cpu_W (cpu_metrics_dict s) = 0 \<and> gpu_W (cpu_metrics_dict s) = 0
       \<and> package_W (cpu_metrics_dict s) = 0"
    "accept_sample a soc st1 s = Inr st2"
  then show "zero_power st2" using accept_sample_zero_power by blast
qed

text \<open>
  Claim C9.  Every sample that the Intel provider's \<open>get_metrics\<close> returns has
  \<open>cpu_W = gpu_W = package_W = ane_W = 0\<close> and GPU metrics \<open>active = 0\<close>,
  \<open>freq_MHz = 0\<close>.  Hence, in every run of the session loop fed by that provider, the
  three peaks are 0, both rolling averages are 0, and every frame shown has zero
  instantaneous watts, zero averages, zero peaks and zero utilisation percentages.
\<close>

theorem intel_power_identically_zero:
  assumes "run_session a soc t0 (map IntelProvider_get_metrics probes) = Inr st"
  shows "(\<forall>probe s. IntelProvider_get_metrics probe = Some s \<longrightarrow>
            cpu_W (cpu_metrics_dict s) = 0 \<and> gpu_W (cpu_metrics_dict s) = 0
          \<and> package_W (cpu_metrics_dict s) = 0 \<and> ane_W (cpu_metrics_dict s) = 0
          \<and> active (gpu_metrics_dict s) = 0 \<and> freq_MHz (gpu_metrics_dict s) = 0)
       \<and> cpu_peak_power st = 0 \<and> gpu_peak_power st = 0 \<and> package_peak_power st = 0
       \<and> get_avg (items (avg_cpu_power_list st)) = 0
       \<and> get_avg (items (avg_gpu_power_list st)) = 0
       \<and> (\<forall>f \<in> set (displayed st).
            fr_cpu_w f = 0 \<and> fr_gpu_w f = 0 \<and> fr_pkg_w f = 0
          \<and> fr_avg_cpu_w f = 0 \<and> fr_avg_gpu_w f = 0
          \<and> fr_cpu_peak_power f = 0 \<and> fr_gpu_peak_power f = 0 \<and> fr_package_peak_power f = 0
          \<and> fr_cpu_power_pct f = 0 \<and> fr_gpu_power_pct f = 0)"
proof -
  from assms obtain st0 where s: "start_session a t0 = Inr st0"
      "run_loop a soc st0 (map IntelProvider_get_metrics probes) = Inr st"
    by (rule run_session_Inr)
  have "zero_power st0"
    using start_session_Inr(5-10) [OF s(1)] by (simp add: zero_power_def)
  from run_loop_zero_power [OF s(2) this] have z: "zero_power st" .
  then have a1: "get_avg (items (avg_cpu_power_list st)) = 0"
    and a2: "get_avg (items (avg_gpu_power_list st)) = 0"
    by (simp_all add: zero_power_def get_avg_zeros)
  show ?thesis using z a1 a2 intel_sample_zero by (simp add: zero_power_def)
qed

theorem intel_power_identically_zero_witness:
  "\<exists>st. run_session \<lparr>interval = 1, avg = 30, max_count = 0\<rparr>
            (IntelProvider_get_soc_info ''Intel(R) Core(TM) i7-9750H CPU @ 2.60GHz'') 0
            (map IntelProvider_get_metrics
               [Inr \<lparr>time_now = 1, per_cpu_percent = [50, 25], cpu_freq_percpu = [2600],
                     cpu_freq_all = Some 2600, thermal_status = ''Nominal''\<rparr>,
                Inl OSError,
                Inr \<lparr>time_now = 2, per_cpu_percent = [75, 100], cpu_freq_percpu = [],
                     cpu_freq_all = None, thermal_status = ''Thermal Level 3''\<rparr>]) = Inr st
        \<and> map fr_timestamp (displayed st) = [1, 2]
        \<and> cpu_peak_power st = 0
        \<and> get_avg (items (avg_cpu_power_list st)) = 0"
proof -
  let ?a = "\<lparr>interval = 1, avg = 30, max_count = 0\<rparr>"
  let ?soc = "IntelProvider_get_soc_info ''Intel(R) Core(TM) i7-9750H CPU @ 2.60GHz''"
  let ?ps = "[Inr \<lparr>time_now = 1, per_cpu_percent = [50, 25], cpu_freq_percpu = [2600],
                     cpu_freq_all = Some 2600, thermal_status = ''Nominal''\<rparr>,
                Inl OSError,
                Inr \<lparr>time_now = 2, per_cpu_percent = [75, 100], cpu_freq_percpu = [],
                     cpu_freq_all = None, thermal_status = ''Thermal Level 3''\<rparr>]"
  let ?st = "projr (run_session ?a ?soc 0 (map IntelProvider_get_metrics ?ps))"
  have h: "run_session ?a ?soc 0 (map IntelProvider_get_metrics ?ps) = Inr ?st"
    by (simp add: session_eval IntelProvider_get_metrics_def IntelProvider_get_soc_info_def
        estimate_tdp_example)
  have v: "map fr_timestamp (displayed ?st) = [1, 2]"
    by (simp add: session_eval IntelProvider_get_metrics_def IntelProvider_get_soc_info_def
        estimate_tdp_example)
  note t = intel_power_identically_zero [OF h]
  from t have p: "cpu_peak_power ?st = 0" by (rule conjunct2 [THEN conjunct1])
  from t have g: "get_avg (items (avg_cpu_power_list ?st)) = 0"
    by (rule conjunct2 [THEN conjunct2, THEN conjunct2, THEN conjunct2, THEN conjunct1])
  show ?thesis by (rule exI [of _ ?st]) (intro conjI h v p g)
qed

section \<open>Static power limits\<close>

lemma set_power_limits_name: "name (set_power_limits soc) = name soc"
  by (simp add: set_power_limits_def Let_def)

text \<open>
  Claim C7, as the code has it.  \<open>_set_power_limits\<close> compares the chip name for
  equality with five names (Apple M1 Max, M1 Pro, M1, M1 Ultra, M2) and otherwise
  looks for the substrings \<open>M3\<close> and \<open>M4\<close> anywhere in the name; every other name
  gets the default 20 W / 20 W.  Whatever the name, both \<open>cpu_max_power\<close> and
  \<open>gpu_max_power\<close> are set to a positive value, which is then the divisor used by the
  session loop.
\<close>

theorem power_limits_always_set:
  "(\<exists>c g. cpu_max_power (set_power_limits soc) = Some c
         \<and> gpu_max_power (set_power_limits soc) = Some g
         \<and> 0 < c \<and> 0 < g
         \<and> or_default (cpu_max_power (set_power_limits soc)) 50 = c
         \<and> or_default (gpu_max_power (set_power_limits soc)) 25 = g)
   \<and> name (set_power_limits soc) = name soc
   \<and> (name soc = ''Apple M1 Max'' \<longrightarrow>
        cpu_max_power (set_power_limits soc) = Some 30 \<and> gpu_max_power (set_power_limits soc) = Some 60)
   \<and> (name soc = ''Apple M1 Pro'' \<longrightarrow>
        cpu_max_power (set_power_limits soc) = Some 30 \<and> gpu_max_power (set_power_limits soc) = Some 30)
   \<and> (name soc = ''Apple M1'' \<longrightarrow>
        cpu_max_power (set_power_limits soc) = Some 20 \<and> gpu_max_power (set_power_limits soc) = Some 20)
   \<and> (name soc = ''Apple M1 Ultra'' \<longrightarrow>
        cpu_max_power (set_power_limits soc) = Some 60 \<and> gpu_max_power (set_power_limits soc) = Some 120)
   \<and> (name soc = ''Apple M2'' \<longrightarrow>
        cpu_max_power (set_power_limits soc) = Some 25 \<and> gpu_max_power (set_power_limits soc) = Some 15)
   \<and> (name soc \<notin> set exact_chip_names \<longrightarrow>
        (contains ''M3'' (name soc) \<longrightarrow>
           cpu_max_power (set_power_limits soc) = Some 30
         \<and> gpu_max_power (set_power_limits soc) = Some 30)
      \<and> (\<not> contains ''M3'' (name soc) \<longrightarrow> contains ''M4'' (name soc) \<longrightarrow>
           cpu_max_power (set_power_limits soc) = Some 35
         \<and> gpu_max_power (set_power_limits soc) = Some 35)
      \<and> (\<not> contains ''M3'' (name soc) \<longrightarrow> \<not> contains ''M4'' (name soc) \<longrightarrow>
           cpu_max_power (set_power_limits soc) = Some 20
         \<and> gpu_max_power (set_power_limits soc) = Some 20))"
  by (simp add: set_power_limits_def Let_def or_default_def exact_chip_names_def)

theorem power_limits_always_set_witness:
  "''Apple M2 Pro'' \<notin> set exact_chip_names
   \<and> \<not> contains ''M3'' ''Apple M2 Pro'' \<and> \<not> contains ''M4'' ''Apple M2 Pro''
   \<and> cpu_max_power (AppleSiliconProvider_get_soc_info ''Apple M2 Pro'') = Some 20
   \<and> gpu_max_power (AppleSiliconProvider_get_soc_info ''Apple M2 Pro'') = Some 20
   \<and> cpu_max_power (AppleSiliconProvider_get_soc_info ''Apple M4 Max'') = Some 35"
  using power_limits_always_set
          [of "\<lparr>name = ''Apple M2 Pro'', cpu_max_power = None, gpu_max_power = None\<rparr>"]
        power_limits_always_set
          [of "\<lparr>name = ''Apple M4 Max'', cpu_max_power = None, gpu_max_power = None\<rparr>"]
  by (simp add: AppleSiliconProvider_get_soc_info_def exact_chip_names_def)

text \<open>\<open>Apple M3 Pro\<close> and \<open>My M3 laptop\<close> equal none of the string literals of the
  table, yet both get the M3 limits instead of the default that \<open>Apple M2 Pro\<close> gets:
  the M3 and M4 rows are matched by substring, not by exact chip name.\<close>

theorem power_limits_substring_match_counterexample:
  "''Apple M3 Pro'' \<notin> set [''Apple M1 Max'', ''Apple M1 Pro'', ''Apple M1'', ''Apple M1 Ultra'',
                              ''Apple M2'', ''M3'', ''M4'']
   \<and> ''My M3 laptop'' \<notin> set [''Apple M1 Max'', ''Apple M1 Pro'', ''Apple M1'', ''Apple M1 Ultra'',
                              ''Apple M2'', ''M3'', ''M4'']
   \<and> cpu_max_power (AppleSiliconProvider_get_soc_info ''Apple M3 Pro'') = Some 30
   \<and> gpu_max_power (AppleSiliconProvider_get_soc_info ''Apple M3 Pro'') = Some 30
   \<and> cpu_max_power (AppleSiliconProvider_get_soc_info ''My M3 laptop'') = Some 30
   \<and> cpu_max_power (AppleSiliconProvider_get_soc_info ''Apple M2 Pro'') = Some 20"
  by (simp add: AppleSiliconProvider_get_soc_info_def set_power_limits_def)

section \<open>Provider selection\<close>

lemma unsupported_message_suffix:
  "suffix (''Detected system: '' @ system h @ '' '' @ machine h) (unsupported_message arch h)"
  unfolding unsupported_message_def
  by (rule suffixI [where zs = "''Unsupported or unknown architecture: '' @ arch @ [CHR 0x0A] @
     ''vtop currently supports Apple Silicon and Intel CPUs on macOS.'' @ [CHR 0x0A]"]) simp

text \<open>
  Claim C8, as the code has it.  A non-empty override decides alone.  Without one, the
  architecture is unknown on every host whose \<open>platform.system()\<close> is not \<open>Darwin\<close>
  and when the probe raises; on Darwin the brand string is searched for \<open>Apple\<close>, then
  for \<open>Intel\<close>, and only then the lower-cased machine string is consulted, \<open>arm64\<close>
  and \<open>aarch64\<close> giving the same provider.  Every other outcome is a RuntimeError
  whose message ends with the detected system and machine strings; a provider is
  returned only for the tags \<open>apple_silicon\<close> and \<open>intel\<close>.
\<close>

theorem provider_selection_order:
  "(\<forall>f. force = Some f \<longrightarrow> f \<noteq> [] \<longrightarrow>
       get_system_provider force h =
         (if f = ''apple_silicon'' then Inr AppleSiliconProvider
          else if f = ''intel'' then Inr IntelProvider
          else Inl (RuntimeError (unsupported_message f h))))
   \<and> (force = None \<or> force = Some [] \<longrightarrow>
        (system h \<noteq> ''Darwin'' \<longrightarrow>
           get_system_provider force h = Inl (RuntimeError (unsupported_message ''unknown'' h)))
      \<and> (\<forall>e. system h = ''Darwin'' \<longrightarrow> brand_probe h = Inl e \<longrightarrow>
           get_system_provider force h = Inl (RuntimeError (unsupported_message ''unknown'' h)))
      \<and> (\<forall>r. system h = ''Darwin'' \<longrightarrow> brand_probe h = Inr r \<longrightarrow>
           (contains ''Apple'' r \<longrightarrow> get_system_provider force h = Inr AppleSiliconProvider)
         \<and> (\<not> contains ''Apple'' r \<longrightarrow> contains ''Intel'' r \<longrightarrow>
               get_system_provider force h = Inr IntelProvider)
         \<and> (\<not> contains ''Apple'' r \<longrightarrow> \<not> contains ''Intel'' r \<longrightarrow>
               (lower (machine h) = ''arm64'' \<or> lower (machine h) = ''aarch64'' \<longrightarrow>
                  get_system_provider force h = Inr AppleSiliconProvider)
             \<and> (lower (machine h) \<in> set [''x86_64'', ''i386'', ''i686''] \<longrightarrow>
                  get_system_provider force h = Inr IntelProvider)
             \<and> (lower (machine h) \<notin> set [''arm64'', ''aarch64'', ''x86_64'', ''i386'', ''i686''] \<longrightarrow>
                  get_system_provider force h
                    = Inl (RuntimeError (unsupported_message ''unknown'' h))))))
   \<and> (\<forall>arch. suffix (''Detected system: '' @ system h @ '' '' @ machine h)
                     (unsupported_message arch h))
   \<and> (\<forall>p. get_system_provider force h = Inr p \<longrightarrow>
          (\<exists>arch. (arch = ''apple_silicon'' \<and> p = AppleSiliconProvider
                   \<or> arch = ''intel'' \<and> p = IntelProvider)
                \<and> (force = Some arch \<or> (force = None \<or> force = Some []) \<and> detect_architecture h = arch)))
   \<and> (\<forall>e. get_system_provider force h = Inl e \<longrightarrow>
          (\<exists>arch. e = RuntimeError (unsupported_message arch h)))"
proof -
  have a: "\<forall>f. force = Some f \<longrightarrow> f \<noteq> [] \<longrightarrow>
       get_system_provider force h =
         (if f = ''apple_silicon'' then Inr AppleSiliconProvider
          else if f = ''intel'' then Inr IntelProvider
          else Inl (RuntimeError (unsupported_message f h)))"
    by (simp add: get_system_provider_def)
  have b: "force = None \<or> force = Some [] \<longrightarrow>
        (system h \<noteq> ''Darwin'' \<longrightarrow>
           get_system_provider force h = Inl (RuntimeError (unsupported_message ''unknown'' h)))
      \<and> (\<forall>e. system h = ''Darwin'' \<longrightarrow> brand_probe h = Inl e \<longrightarrow>
           get_system_provider force h = Inl (RuntimeError (unsupported_message ''unknown'' h)))
      \<and> (\<forall>r. system h = ''Darwin'' \<longrightarrow> brand_probe h = Inr r \<longrightarrow>
           (contains ''Apple'' r \<longrightarrow> get_system_provider force h = Inr AppleSiliconProvider)
         \<and> (\<not> contains ''Apple'' r \<longrightarrow> contains ''Intel'' r \<longrightarrow>
               get_system_provider force h = Inr IntelProvider)
         \<and> (\<not> contains ''Apple'' r \<longrightarrow> \<not> contains ''Intel'' r \<longrightarrow>
               (lower (machine h) = ''arm64'' \<or> lower (machine h) = ''aarch64'' \<longrightarrow>
                  get_system_provider force h = Inr AppleSiliconProvider)
             \<and> (lower (machine h) \<in> set [''x86_64'', ''i386'', ''i686''] \<longrightarrow>
                  get_system_provider force h = Inr IntelProvider)
             \<and> (lower (machine h) \<notin> set [''arm64'', ''aarch64'', ''x86_64'', ''i386'', ''i686''] \<longrightarrow>
                  get_system_provider force h
                    = Inl (RuntimeError (unsupported_message ''unknown'' h)))))"
    by (auto simp: get_system_provider_def detect_architecture_def Let_def)
  have c: "\<forall>arch. suffix (''Detected system: '' @ system h @ '' '' @ machine h)
                     (unsupported_message arch h)"
    using unsupported_message_suffix by blast
  have d: "\<forall>p. get_system_provider force h = Inr p \<longrightarrow>
          (\<exists>arch. (arch = ''apple_silicon'' \<and> p = AppleSiliconProvider
                   \<or> arch = ''intel'' \<and> p = IntelProvider)
                \<and> (force = Some arch \<or> (force = None \<or> force = Some []) \<and> detect_architecture h = arch))"
    by (auto simp: get_system_provider_def Let_def split: option.splits if_splits)
  have e: "\<forall>e. get_system_provider force h = Inl e \<longrightarrow>
          (\<exists>arch. e = RuntimeError (unsupported_message arch h))"
    by (auto simp: get_system_provider_def Let_def split: option.splits if_splits)
  show ?thesis using a b c d e by blast
qed

theorem provider_selection_order_witness:
  "get_system_provider (Some ''intel'')
      \<lparr>system = ''Darwin'', brand_probe = Inr ''Apple M1'', machine = ''arm64''\<rparr>
     = Inr IntelProvider
   \<and> get_system_provider None
      \<lparr>system = ''Darwin'', brand_probe = Inr ''Apple M1'', machine = ''arm64''\<rparr>
     = Inr AppleSiliconProvider
   \<and> get_system_provider None
      \<lparr>system = ''Darwin'', brand_probe = Inr '''', machine = ''ARM64''\<rparr>
     = Inr AppleSiliconProvider
   \<and> get_system_provider None
      \<lparr>system = ''Darwin'', brand_probe = Inr '''', machine = ''x86_64''\<rparr>
     = Inr IntelProvider
   \<and> get_system_provider None
      \<lparr>system = ''Darwin'', brand_probe = Inr '''', machine = ''ppc''\<rparr>
     = Inl (RuntimeError (unsupported_message ''unknown''
              \<lparr>system = ''Darwin'', brand_probe = Inr '''', machine = ''ppc''\<rparr>))"
proof -
  have 1: "get_system_provider (Some ''intel'')
      \<lparr>system = ''Darwin'', brand_probe = Inr ''Apple M1'', machine = ''arm64''\<rparr>
     = Inr IntelProvider"
    using provider_selection_order [of "Some ''intel''"
          "\<lparr>system = ''Darwin'', brand_probe = Inr ''Apple M1'', machine = ''arm64''\<rparr>"]
    by simp
  have 2: "get_system_provider None
      \<lparr>system = ''Darwin'', brand_probe = Inr ''Apple M1'', machine = ''arm64''\<rparr>
     = Inr AppleSiliconProvider"
    using provider_selection_order [of None
          "\<lparr>system = ''Darwin'', brand_probe = Inr ''Apple M1'', machine = ''arm64''\<rparr>"]
    by simp
  have l: "lower ''ARM64'' = ''arm64''" "lower ''x86_64'' = ''x86_64''" "lower ''ppc'' = ''ppc''"
    by code_simp+
  have 3: "get_system_provider None
      \<lparr>system = ''Darwin'', brand_probe = Inr '''', machine = ''ARM64''\<rparr>
     = Inr AppleSiliconProvider"
    using provider_selection_order [of None
          "\<lparr>system = ''Darwin'', brand_probe = Inr '''', machine = ''ARM64''\<rparr>"]
    by (simp add: l)
  have 4: "get_system_provider None
      \<lparr>system = ''Darwin'', brand_probe = Inr '''', machine = ''x86_64''\<rparr>
     = Inr IntelProvider"
    using provider_selection_order [of None
          "\<lparr>system = ''Darwin'', brand_probe = Inr '''', machine = ''x86_64''\<rparr>"]
    by (simp add: l)
  have 5: "get_system_provider None
      \<lparr>system = ''Darwin'', brand_probe = Inr '''', machine = ''ppc''\<rparr>
     = Inl (RuntimeError (unsupported_message ''unknown''
              \<lparr>system = ''Darwin'', brand_probe = Inr '''', machine = ''ppc''\<rparr>))"
    using provider_selection_order [of None
          "\<lparr>system = ''Darwin'', brand_probe = Inr '''', machine = ''ppc''\<rparr>"]
    by (simp add: l)
  show ?thesis by (intro conjI 1 2 3 4 5)
qed

text \<open>On Linux the machine string \<open>aarch64\<close> (or a brand string naming Intel) is never
  consulted: the result is the error, naming \<open>Linux\<close> and the machine.\<close>

theorem provider_selection_darwin_gate_counterexample:
  "get_system_provider None
      \<lparr>system = ''Linux'', brand_probe = Inr '''', machine = ''aarch64''\<rparr>
     = Inl (RuntimeError
         (''Unsupported or unknown architecture: unknown'' @ [CHR 0x0A] @
          ''vtop currently supports Apple Silicon and Intel CPUs on macOS.'' @ [CHR 0x0A] @
          ''Detected system: Linux aarch64''))
   \<and> lower ''aarch64'' = ''aarch64''
   \<and> get_system_provider None
      \<lparr>system = ''Linux'', brand_probe = Inr ''Intel(R) Xeon(R) CPU'', machine = ''x86_64''\<rparr>
     = Inl (RuntimeError
         (''Unsupported or unknown architecture: unknown'' @ [CHR 0x0A] @
          ''vtop currently supports Apple Silicon and Intel CPUs on macOS.'' @ [CHR 0x0A] @
          ''Detected system: Linux x86_64''))"
  by (simp add: get_system_provider_def detect_architecture_def unsupported_message_def
      lower_def ascii_lower_def)

section \<open>The sample parser of the Apple Silicon provider\<close>

lemma split_bytes_not_Nil: "split_bytes sep xs \<noteq> []"
  by (induction xs) (auto split: list.splits)

lemma split_bytes_no_sep: "sep \<notin> set xs \<Longrightarrow> split_bytes sep xs = [xs]"
  by (induction xs) auto

lemma split_bytes_append_sep:
  "split_bytes sep (xs @ sep # ys) = split_bytes sep xs @ split_bytes sep ys"
proof (induction xs)
  case Nil
  then show ?case by simp
next
  case (Cons x xs)
  then show ?case
    using split_bytes_not_Nil [of sep xs]
    by (cases "split_bytes sep xs") auto
qed

lemma split_bytes_two:
  "sep \<notin> set xs \<Longrightarrow> sep \<notin> set ys \<Longrightarrow> split_bytes sep (xs @ sep # ys) = [xs, ys]"
  by (simp add: split_bytes_append_sep split_bytes_no_sep)

lemma decode_entry_Inr:
  assumes "decode_entry api blob = Inr s"
  shows "\<exists>p. loads api blob = Inr p
           \<and> parse_thermal_pressure api p = Inr (thermal_pressure s)
           \<and> parse_cpu_metrics api p = Inr (cpu_metrics_dict s)
           \<and> parse_gpu_metrics api p = Inr (gpu_metrics_dict s)
           \<and> timestamp_of api p = Inr (timestamp s)"
  using assms by (auto simp: decode_entry_def split: sum.splits)

text \<open>
  Claim C1.  Whenever the buffer read from the session file splits at the null bytes
  into records of which the last one fails to decode and the one before it is non-empty
  and decodes, \<open>get_metrics\<close> returns the sample decoded from the second-to-last
  record: its CPU metrics, GPU metrics, thermal pressure and timestamp are what the
  parsers give on the property list loaded from that record.  \<open>plistlib.loads\<close> is
  called exactly twice, on the last record and then on the second-to-last one: there is
  one fallback attempt.  A buffer of two records without null bytes, joined by a null
  byte, splits into these two records.
\<close>

theorem fallback_to_second_to_last_record:
  assumes "split_bytes 0 raw = recs @ [entry, lst]"
    and "decode_entry api lst = Inl e"
    and "entry \<noteq> []"
    and "decode_entry api entry = Inr s"
  shows "AppleSiliconProvider_get_metrics api (Inr raw) = ([lst, entry], Some s)
       \<and> (\<exists>p. loads api entry = Inr p
              \<and> parse_cpu_metrics api p = Inr (cpu_metrics_dict s)
              \<and> parse_gpu_metrics api p = Inr (gpu_metrics_dict s)
              \<and> parse_thermal_pressure api p = Inr (thermal_pressure s)
              \<and> timestamp_of api p = Inr (timestamp s))
       \<and> (\<forall>r1 r2. 0 \<notin> set r1 \<longrightarrow> 0 \<notin> set r2 \<longrightarrow> split_bytes 0 (r1 @ 0 # r2) = [r1, r2])"
proof -
  let ?data = "split_bytes 0 raw"
  have l: "last ?data = lst" and n: "length ?data > 1"
    and i: "?data ! (length ?data - 2) = entry"
    using assms(1) by (simp_all add: nth_append)
  have g: "AppleSiliconProvider_get_metrics api (Inr raw) = ([lst, entry], Some s)"
    using assms(2-4) l n i by (simp add: AppleSiliconProvider_get_metrics_def Let_def)
  have p: "\<exists>p. loads api entry = Inr p
              \<and> parse_cpu_metrics api p = Inr (cpu_metrics_dict s)
              \<and> parse_gpu_metrics api p = Inr (gpu_metrics_dict s)
              \<and> parse_thermal_pressure api p = Inr (thermal_pressure s)
              \<and> timestamp_of api p = Inr (timestamp s)"
    using decode_entry_Inr [OF assms(4)] by auto
  have t: "\<forall>r1 r2. 0 \<notin> set r1 \<longrightarrow> 0 \<notin> set r2 \<longrightarrow> split_bytes 0 (r1 @ 0 # r2) = [r1, r2]"
    by (intro allI impI split_bytes_two)
  show ?thesis by (intro conjI g p t)
qed

text \<open>The buffer \<open>[1, 2, 0, 3]\<close>: the last record \<open>[3]\<close> is malformed, the record
  \<open>[1, 2]\<close> before it decodes.\<close>

theorem fallback_to_second_to_last_record_witness:
  "split_bytes 0 [1, 2, 0, 3 :: 8 word] = [[1, 2], [3]]
   \<and> decode_entry demo_api [3] = Inl ValueError
   \<and> decode_entry demo_api [1, 2] = Inr (power_sample 7 5 3 9)
   \<and> AppleSiliconProvider_get_metrics demo_api (Inr [1, 2, 0, 3])
       = ([[3], [1, 2]], Some (power_sample 7 5 3 9))"
proof -
  have a: "split_bytes 0 [1, 2, 0, 3 :: 8 word] = [] @ [[1, 2], [3]]" by simp
  have b: "decode_entry demo_api [3] = Inl ValueError"
    by (simp add: decode_entry_def demo_api_def)
  have c: "[1, 2 :: 8 word] \<noteq> []" by simp
  have d: "decode_entry demo_api [1, 2] = Inr (power_sample 7 5 3 9)"
    by (simp add: decode_entry_def demo_api_def power_sample_def)
  from fallback_to_second_to_last_record [OF a b c d]
  have "AppleSiliconProvider_get_metrics demo_api (Inr [1, 2, 0, 3])
       = ([[3], [1, 2]], Some (power_sample 7 5 3 9))" by (rule conjunct1)
  then show ?thesis using a b d by simp
qed

text \<open>
  Claim C2.  \<open>get_metrics\<close> returns \<open>None\<close> when the session file cannot be read, and
  when the last record fails to decode and the second-to-last record is missing, empty
  or fails to decode as well; in particular for the empty buffer and for a buffer that
  holds a single malformed record.  At most two records are handed to
  \<open>plistlib.loads\<close>.  The exceptions raised while decoding are caught inside
  \<open>get_metrics\<close>: its result is either \<open>None\<close> or a sample that decoded without an
  exception from one of the records tried, never a malformed record.
\<close>

theorem no_sample_when_both_attempts_fail:
  "AppleSiliconProvider_get_metrics api (Inl e0) = ([], None)
   \<and> (\<forall>e1. decode_entry api (last (split_bytes 0 raw)) = Inl e1 \<longrightarrow>
         (length (split_bytes 0 raw) \<le> 1
          \<or> split_bytes 0 raw ! (length (split_bytes 0 raw) - 2) = []
          \<or> (\<exists>e2. decode_entry api (split_bytes 0 raw ! (length (split_bytes 0 raw) - 2)) = Inl e2)) \<longrightarrow>
         snd (AppleSiliconProvider_get_metrics api (Inr raw)) = None)
   \<and> (\<forall>e1. decode_entry api [] = Inl e1 \<longrightarrow>
         AppleSiliconProvider_get_metrics api (Inr []) = ([[]], None))
   \<and> (\<forall>e1. 0 \<notin> set raw \<longrightarrow> decode_entry api raw = Inl e1 \<longrightarrow>
         AppleSiliconProvider_get_metrics api (Inr raw) = ([raw], None))
   \<and> length (fst (AppleSiliconProvider_get_metrics api fp)) \<le> 2
   \<and> (\<forall>s. snd (AppleSiliconProvider_get_metrics api fp) = Some s \<longrightarrow>
         (\<exists>blob \<in> set (fst (AppleSiliconProvider_get_metrics api fp)). decode_entry api blob = Inr s))"
proof -
  have a: "AppleSiliconProvider_get_metrics api (Inl e0) = ([], None)"
    by (simp add: AppleSiliconProvider_get_metrics_def)
  have b: "\<forall>e1. decode_entry api (last (split_bytes 0 raw)) = Inl e1 \<longrightarrow>
         (length (split_bytes 0 raw) \<le> 1
          \<or> split_bytes 0 raw ! (length (split_bytes 0 raw) - 2) = []
          \<or> (\<exists>e2. decode_entry api (split_bytes 0 raw ! (length (split_bytes 0 raw) - 2)) = Inl e2)) \<longrightarrow>
         snd (AppleSiliconProvider_get_metrics api (Inr raw)) = None"
    by (auto simp: AppleSiliconProvider_get_metrics_def Let_def)
  have c: "\<forall>e1. decode_entry api [] = Inl e1 \<longrightarrow>
         AppleSiliconProvider_get_metrics api (Inr []) = ([[]], None)"
    by (simp add: AppleSiliconProvider_get_metrics_def Let_def)
  have d: "\<forall>e1. 0 \<notin> set raw \<longrightarrow> decode_entry api raw = Inl e1 \<longrightarrow>
         AppleSiliconProvider_get_metrics api (Inr raw) = ([raw], None)"
    by (simp add: AppleSiliconProvider_get_metrics_def Let_def split_bytes_no_sep)
  have f: "length (fst (AppleSiliconProvider_get_metrics api fp)) \<le> 2"
    by (simp add: AppleSiliconProvider_get_metrics_def Let_def split: sum.splits)
  have g: "\<forall>s. snd (AppleSiliconProvider_get_metrics api fp) = Some s \<longrightarrow>
         (\<exists>blob \<in> set (fst (AppleSiliconProvider_get_metrics api fp)). decode_entry api blob = Inr s)"
    by (auto simp: AppleSiliconProvider_get_metrics_def Let_def split: sum.splits if_splits)
  show ?thesis by (intro conjI a b c d f g)
qed

text \<open>The empty buffer, a single malformed record, two malformed records, a malformed
  last record after an empty one, and a file that cannot be read.\<close>

theorem no_sample_when_both_attempts_fail_witness:
  "AppleSiliconProvider_get_metrics demo_api (Inr []) = ([[]], None)
   \<and> AppleSiliconProvider_get_metrics demo_api (Inr [3, 4]) = ([[3, 4]], None)
   \<and> AppleSiliconProvider_get_metrics demo_api (Inr [5, 0, 3]) = ([[3], [5]], None)
   \<and> AppleSiliconProvider_get_metrics demo_api (Inr [1, 2, 0, 0, 3]) = ([[3]], None)
   \<and> AppleSiliconProvider_get_metrics demo_api (Inl OSError) = ([], None)"
proof -
  have e: "decode_entry demo_api [] = Inl ValueError"
    "decode_entry demo_api [3, 4] = Inl ValueError"
    by (simp_all add: decode_entry_def demo_api_def)
  have z: "(0 :: 8 word) \<notin> set [3, 4]" by simp
  note t = no_sample_when_both_attempts_fail [of demo_api OSError "[3, 4]" "Inr []"]
  from t have 1: "AppleSiliconProvider_get_metrics demo_api (Inr []) = ([[]], None)"
    using e(1) by blast
  from t have 2: "AppleSiliconProvider_get_metrics demo_api (Inr [3, 4]) = ([[3, 4]], None)"
    using e(2) z by blast
  from t have 5: "AppleSiliconProvider_get_metrics demo_api (Inl OSError) = ([], None)"
    by (rule conjunct1)
  have 3: "AppleSiliconProvider_get_metrics demo_api (Inr [5, 0, 3]) = ([[3], [5]], None)"
    by (simp add: AppleSiliconProvider_get_metrics_def decode_entry_def demo_api_def)
  have 4: "AppleSiliconProvider_get_metrics demo_api (Inr [1, 2, 0, 0, 3]) = ([[3]], None)"
    by (simp add: AppleSiliconProvider_get_metrics_def decode_entry_def demo_api_def)
  show ?thesis by (intro conjI 1 2 3 4 5)
qed

end
